theory Spec2Isabelle
  imports Complex_Main
begin

section \<open>Python values shared by the controllers\<close>

text \<open>
  Exceptions of the source, as values. The source raises \<^verbatim>\<open>AssertionError\<close> for the three
  checks of the constructor of \<^verbatim>\<open>net_train\<close> (same container type, one class cardinality, a
  background class) and \<^verbatim>\<open>NotImplementedError\<close> for an unsupported container, model type,
  loss or GP mode; the constructors below keep them apart by the place that raises them.
  \<^verbatim>\<open>ValueError\<close>, \<^verbatim>\<open>IndexError\<close>, \<^verbatim>\<open>KeyError\<close>, \<^verbatim>\<open>ZeroDivisionError\<close> and \<^verbatim>\<open>NameError\<close> are the
  interpreter's and numpy's own.
\<close>

datatype error =
    FormatMismatch
  | UnsupportedFormat
  | InconsistentClasses
  | MissingBackgroundClass
  | UnsupportedModelType
  | UnsupportedLoss
  | UnsupportedMode
  | ValueError
  | IndexError
  | KeyError
  | ZeroDivisionError
  | NameError string

text \<open>
  A Python float as the loss history holds it: a finite value, an infinity or NaN.
  Only comparisons are taken on losses by the control logic, and comparison of floats is
  exact, so the finite values are read as reals. Every comparison with NaN is false.
\<close>

datatype pyfloat = Fin real | PInf | NInf | NaN

fun py_lt :: "pyfloat \<Rightarrow> pyfloat \<Rightarrow> bool" where
  "py_lt NaN y = False"
| "py_lt x NaN = False"
| "py_lt (Fin a) (Fin b) = (a < b)"
| "py_lt (Fin a) PInf = True"
| "py_lt (Fin a) NInf = False"
| "py_lt PInf y = False"
| "py_lt NInf NInf = False"
| "py_lt NInf y = True"

text \<open>
  The builtin \<^verbatim>\<open>min\<close> on a list: it keeps the first item and replaces it by a later one
  only when that one compares strictly less; on the empty list it raises \<^verbatim>\<open>ValueError\<close>.
\<close>

fun py_min_from :: "pyfloat \<Rightarrow> pyfloat list \<Rightarrow> pyfloat" where
  "py_min_from m [] = m"
| "py_min_from m (x # xs) = py_min_from (if py_lt x m then x else m) xs"

definition py_min :: "pyfloat list \<Rightarrow> error + pyfloat" where
  "py_min xs = (case xs of [] \<Rightarrow> Inl ValueError | x # rest \<Rightarrow> Inr (py_min_from x rest))"

definition isfinite :: "pyfloat \<Rightarrow> bool" where
  "isfinite x = (case x of Fin r \<Rightarrow> True | PInf \<Rightarrow> False | NInf \<Rightarrow> False | NaN \<Rightarrow> False)"

section \<open>DKL-GPR: decode\<close>

text \<open>
  \<^verbatim>\<open>dklGPR.decode\<close> (dklgpr.py). The object holds the flag \<^verbatim>\<open>correlated_output\<close>, the GP
  model and the model's lazily filled \<^verbatim>\<open>prediction_strategy\<close>. What gpytorch computes is
  taken as parameters: the posterior query that fills the prediction strategy, the feature
  extractor on the training inputs, the scaling to bounds, and the exact prediction from
  the prior over the combined points.
\<close>

record ('gp, 'ps) dklGPR =
  correlated_output :: bool
  gp_model :: 'gp
  prediction_strategy :: "'ps option"

record ('gp, 'ps, 'z, 'res) gp_ops =
  compute_posterior :: "'gp \<Rightarrow> 'ps"
  train_embedding :: "'gp \<Rightarrow> 'z list"
  scale_to_bounds :: "'gp \<Rightarrow> 'z list \<Rightarrow> 'z list"
  exact_prediction :: "'gp \<Rightarrow> 'ps \<Rightarrow> 'z list \<Rightarrow> 'res"

definition decode ::
  "('gp, 'ps, 'z, 'res) gp_ops \<Rightarrow> ('gp, 'ps) dklGPR \<Rightarrow> 'z list
     \<Rightarrow> error + (('gp, 'ps) dklGPR \<times> 'res)" where
  "decode ops self z_emb =
     (if \<not> correlated_output self then Inl UnsupportedMode
      else
        let m = gp_model self;
            pstrategy = (case prediction_strategy self of
                           None \<Rightarrow> compute_posterior ops m
                         | Some p \<Rightarrow> p);
            z = scale_to_bounds ops m (z_emb @ train_embedding ops m)
        in Inr (self\<lparr>prediction_strategy := Some pstrategy\<rparr>,
                exact_prediction ops m pstrategy z))"

section \<open>Batch Normalizer: the head of the constructor of net_train\<close>

text \<open>
  An array is the list of its samples along the first axis, each sample the flat list of
  its values: reals for images, integers for labels. The four data arguments of the
  constructor come as a Python list of arrays, a dictionary of arrays (an association
  list, keys distinct, in insertion order), one bulk array, or something else, of which
  only the type name matters.
\<close>

type_synonym image_array = "real list list"
type_synonym label_array = "int list list"

datatype 'a pydata = PyList "'a list" | PyDict "(int \<times> 'a) list" | NdArray 'a | PyOther string

datatype pytype = TList | TDict | TNdarray | TOther string

fun pytype_of :: "'a pydata \<Rightarrow> pytype" where
  "pytype_of (PyList xs) = TList"
| "pytype_of (PyDict kvs) = TDict"
| "pytype_of (NdArray a) = TNdarray"
| "pytype_of (PyOther t) = TOther t"

text \<open>After the head of the constructor the data is a list or a dictionary of batches.\<close>

datatype 'a batches = BList "'a list" | BDict "(int \<times> 'a) list"

text \<open>\<^verbatim>\<open>len(np.unique(lab))\<close>: the number of distinct values in the whole array.\<close>

definition np_unique_count :: "label_array \<Rightarrow> nat" where
  "np_unique_count lab = length (remdups (concat lab))"

text \<open>
  \<^verbatim>\<open>np.split(ary, sections)\<close> with an integer, as numpy documents it: the array is divided
  into \<^verbatim>\<open>sections\<close> equal parts along the first axis, and \<^verbatim>\<open>ValueError\<close> is raised when the
  length is not a multiple of \<^verbatim>\<open>sections\<close> or \<^verbatim>\<open>sections\<close> is not positive.
\<close>

definition np_split :: "'s list \<Rightarrow> int \<Rightarrow> error + 's list list" where
  "np_split ary sections =
     (if sections \<le> 0 then Inl ValueError
      else if int (length ary) mod sections \<noteq> 0 then Inl ValueError
      else
        let sz = length ary div nat sections
        in Inr (map (\<lambda>i. take sz (drop (i * sz) ary)) [0..<nat sections]))"

text \<open>
  Lines 83 to 101: the branch on the container type. It is entered after the assertion that
  the four types agree, so the list branch sees four lists, the dictionary branch four
  dictionaries and the array branch four arrays; the last case is the
  \<^verbatim>\<open>NotImplementedError\<close> of the source. The result also carries the list behind
  \<^verbatim>\<open>num_classes\<close>: the count of distinct values of every training label batch.
  \<^verbatim>\<open>np.divmod\<close> is floor division and yields 0 on a zero divisor, as \<open>div\<close> on \<open>int\<close> does.
\<close>

definition normalize_inputs ::
  "image_array pydata \<Rightarrow> label_array pydata \<Rightarrow> image_array pydata \<Rightarrow> label_array pydata
     \<Rightarrow> int
     \<Rightarrow> error + (image_array batches \<times> label_array batches \<times> image_array batches
                 \<times> label_array batches \<times> nat list)" where
  "normalize_inputs images_all labels_all images_test_all labels_test_all batch_size =
     (case (images_all, labels_all, images_test_all, labels_test_all) of
        (PyList ia, PyList la, PyList ita, PyList lta) \<Rightarrow>
          Inr (BList ia, BList la, BList ita, BList lta, map np_unique_count la)
      | (PyDict ia, PyDict la, PyDict ita, PyDict lta) \<Rightarrow>
          Inr (BDict ia, BDict la, BDict ita, BDict lta,
               map (\<lambda>kv. np_unique_count (snd kv)) la)
      | (NdArray ia, NdArray la, NdArray ita, NdArray lta) \<Rightarrow>
          (let n_train_batches = int (length la) div batch_size;
               n_test_batches = int (length lta) div batch_size
           in case np_split ia n_train_batches of Inl e \<Rightarrow> Inl e | Inr ias \<Rightarrow>
              (case np_split la n_train_batches of Inl e \<Rightarrow> Inl e | Inr las \<Rightarrow>
              (case np_split ita n_test_batches of Inl e \<Rightarrow> Inl e | Inr itas \<Rightarrow>
              (case np_split lta n_test_batches of Inl e \<Rightarrow> Inl e | Inr ltas \<Rightarrow>
                 Inr (BList ias, BList las, BList itas, BList ltas,
                      map np_unique_count las)))))
      | _ \<Rightarrow> Inl UnsupportedFormat)"

text \<open>
  Lines 80 to 107: the type assertion, the branch above, the two assertions on the set
  \<^verbatim>\<open>num_classes\<close> (one element; not 1) and the mapping of 2 to one output channel.
  The set is the list of counts without duplicates; \<^verbatim>\<open>pop\<close> takes its only element.
\<close>

definition init_classes ::
  "image_array pydata \<Rightarrow> label_array pydata \<Rightarrow> image_array pydata \<Rightarrow> label_array pydata
     \<Rightarrow> int
     \<Rightarrow> error + (image_array batches \<times> label_array batches \<times> image_array batches
                 \<times> label_array batches \<times> nat)" where
  "init_classes images_all labels_all images_test_all labels_test_all batch_size =
     (if \<not> (pytype_of images_all = pytype_of labels_all
             \<and> pytype_of labels_all = pytype_of images_test_all
             \<and> pytype_of images_test_all = pytype_of labels_test_all)
      then Inl FormatMismatch
      else
        case normalize_inputs images_all labels_all images_test_all labels_test_all batch_size of
          Inl e \<Rightarrow> Inl e
        | Inr (ia, la, ita, lta, counts) \<Rightarrow>
            let num_classes = remdups counts
            in if length num_classes \<noteq> 1 then Inl InconsistentClasses
               else
                 let k = hd num_classes
                 in if k = 1 then Inl MissingBackgroundClass
                    else Inr (ia, la, ita, lta, if k = 2 then k - 1 else k))"

section \<open>Training Loop Controller: the object and its collaborators\<close>

text \<open>
  The networks, the loss functions and the optimizer are collaborators behind an
  interface: building a network from its hyper-parameters, one optimisation step
  (forward, loss, backward, update) returning the new network state and the scalar loss,
  and one evaluation (forward, loss). The network state \<open>'net\<close> stands for the weights
  together with the optimizer's state. Moving tensors to the GPU and converting their
  element type do not change what the control logic sees and are left out.
\<close>

datatype criterion = DiceLoss | BCEWithLogitsLoss | CrossEntropyLoss

record 'net backend =
  dilUnet :: "nat \<Rightarrow> nat \<Rightarrow> bool \<Rightarrow> bool \<Rightarrow> bool \<Rightarrow> 'net"
  dilnet :: "nat \<Rightarrow> nat \<Rightarrow> bool \<Rightarrow> bool \<Rightarrow> 'net"
  optimize :: "criterion \<Rightarrow> 'net \<Rightarrow> image_array \<Rightarrow> label_array \<Rightarrow> 'net \<times> pyfloat"
  evaluate :: "criterion \<Rightarrow> 'net \<Rightarrow> image_array \<Rightarrow> label_array \<Rightarrow> pyfloat"

text \<open>The attributes of a \<^verbatim>\<open>net_train\<close> object, as lines 130 to 145 assign them.\<close>

record 'net net_train =
  net :: 'net
  criterion :: criterion
  batch_idx_train :: "nat list"
  batch_idx_test :: "nat list"
  images_all :: "image_array batches"
  labels_all :: "label_array batches"
  images_test_all :: "image_array batches"
  labels_test_all :: "label_array batches"
  num_classes :: nat
  batch_size :: int
  training_cycles :: int
  print_loss :: int
  savedir :: string
  plot_training_history :: bool
  train_loss :: "pyfloat list"
  test_loss :: "pyfloat list"

text \<open>
  What the training run does to the outside: a checkpoint written by \<^verbatim>\<open>torch.save\<close> (path
  and network state), the progress line of a cycle (cycle number, last training loss, last
  test loss; rounding to four decimals is a matter of display), the line of the final
  evaluation (the losses of all test batches, whose mean the source prints) and the plot.
\<close>

datatype 'net effect =
    TorchSave string 'net
  | PrintEpoch nat pyfloat pyfloat
  | PrintEvaluation "pyfloat list"
  | PlotLosses "pyfloat list" "pyfloat list"

record 'net run_result =
  result_net :: 'net
  final_self :: "'net net_train"
  cycle_effects :: "'net effect list list"
  final_effects :: "'net effect list"

subsection \<open>Containers, slices and paths\<close>

fun len_batches :: "'a batches \<Rightarrow> nat" where
  "len_batches (BList xs) = length xs"
| "len_batches (BDict kvs) = length kvs"

text \<open>
  \<^verbatim>\<open>data[batch_num]\<close> with a non-negative index: a list raises \<^verbatim>\<open>IndexError\<close> out of
  range, a dictionary raises \<^verbatim>\<open>KeyError\<close> when the number is not one of its keys.
\<close>

fun getitem :: "'a batches \<Rightarrow> nat \<Rightarrow> error + 'a" where
  "getitem (BList xs) i = (if i < length xs then Inr (xs ! i) else Inl IndexError)"
| "getitem (BDict kvs) i =
     (case map_of kvs (int i) of None \<Rightarrow> Inl KeyError | Some v \<Rightarrow> Inr v)"

definition np_getitem :: "nat list \<Rightarrow> nat \<Rightarrow> error + nat" where
  "np_getitem xs i = (if i < length xs then Inr (xs ! i) else Inl IndexError)"

text \<open>The slice \<^verbatim>\<open>xs[:b]\<close>: a negative bound counts from the end.\<close>

definition slice_to :: "'a list \<Rightarrow> int \<Rightarrow> 'a list" where
  "slice_to xs b = (if 0 \<le> b then take (nat b) xs else take (length xs - nat (- b)) xs)"

text \<open>\<^verbatim>\<open>os.path.join\<close> of a directory and a relative file name.\<close>

definition os_path_join :: "string \<Rightarrow> string \<Rightarrow> string" where
  "os_path_join d f =
     (if d = [] then f else if last d = CHR ''/'' then d @ f else d @ ''/'' @ f)"

subsection \<open>dataloader, train_step, test_step\<close>

definition dataloader ::
  "'net net_train \<Rightarrow> image_array batches \<Rightarrow> label_array batches \<Rightarrow> nat
     \<Rightarrow> error + (image_array \<times> label_array)" where
  "dataloader self imgs lbls batch_num =
     (case getitem imgs batch_num of Inl x \<Rightarrow> Inl x | Inr im \<Rightarrow>
     (case getitem lbls batch_num of Inl x \<Rightarrow> Inl x | Inr lb \<Rightarrow>
        Inr (slice_to im (batch_size self), slice_to lb (batch_size self))))"

definition train_step ::
  "'net backend \<Rightarrow> 'net net_train \<Rightarrow> image_array \<Rightarrow> label_array
     \<Rightarrow> 'net net_train \<times> pyfloat" where
  "train_step B self img lbl =
     (case optimize B (criterion self) (net self) img lbl of
        (net', loss) \<Rightarrow> (self\<lparr>net := net'\<rparr>, loss))"

definition test_step ::
  "'net backend \<Rightarrow> 'net net_train \<Rightarrow> image_array \<Rightarrow> label_array \<Rightarrow> pyfloat" where
  "test_step B self img lbl = evaluate B (criterion self) (net self) img lbl"

subsection \<open>run\<close>

text \<open>
  Lines 194 to 199: the progress line, on the first cycle and on every cycle whose number
  is a multiple of \<^verbatim>\<open>print_loss\<close>. The \<^verbatim>\<open>or\<close> is lazy, so the remainder is only taken
  for \<open>e > 0\<close>; a zero \<^verbatim>\<open>print_loss\<close> then raises \<^verbatim>\<open>ZeroDivisionError\<close>.
\<close>

definition print_epoch :: "nat \<Rightarrow> 'net net_train \<Rightarrow> error + 'net effect list" where
  "print_epoch e self =
     (if e = 0 then Inr [PrintEpoch (e + 1) (last (train_loss self)) (last (test_loss self))]
      else if print_loss self = 0 then Inl ZeroDivisionError
      else if (int e + 1) mod print_loss self = 0
        then Inr [PrintEpoch (e + 1) (last (train_loss self)) (last (test_loss self))]
      else Inr [])"

text \<open>
  Lines 200 to 203: the "best" checkpoint. The \<^verbatim>\<open>and\<close> is lazy: for \<open>e = 0\<close> nothing is
  compared. \<^verbatim>\<open>test_loss[-1]\<close> is the loss of this cycle and \<^verbatim>\<open>test_loss[:-1]\<close> are all
  losses recorded before it.
\<close>

definition save_best :: "nat \<Rightarrow> 'net net_train \<Rightarrow> error + 'net effect list" where
  "save_best e self =
     (if e > 0 then
        (if test_loss self = [] then Inl IndexError
         else case py_min (butlast (test_loss self)) of
                Inl x \<Rightarrow> Inl x
              | Inr m \<Rightarrow>
                  Inr (if py_lt (last (test_loss self)) m
                       then [TorchSave (os_path_join (savedir self) ''model_test_weights_best.pt'')
                               (net self)]
                       else []))
      else Inr [])"

text \<open>One pass through the body of the loop of \<^verbatim>\<open>run\<close>, for the cycle \<open>e\<close>.\<close>

definition run_cycle ::
  "'net backend \<Rightarrow> nat \<Rightarrow> 'net net_train \<Rightarrow> error + ('net net_train \<times> 'net effect list)" where
  "run_cycle B e self =
     (case np_getitem (batch_idx_train self) e of Inl x \<Rightarrow> Inl x | Inr bt \<Rightarrow>
     (case dataloader self (images_all self) (labels_all self) bt of
        Inl x \<Rightarrow> Inl x
      | Inr (images, labels) \<Rightarrow>
     (case train_step B self images labels of (self1, loss) \<Rightarrow>
     (let self2 = self1\<lparr>train_loss := train_loss self1 @ [loss]\<rparr>
      in case np_getitem (batch_idx_test self2) e of Inl x \<Rightarrow> Inl x | Inr bs \<Rightarrow>
     (case dataloader self2 (images_test_all self2) (labels_test_all self2) bs of
        Inl x \<Rightarrow> Inl x
      | Inr (images', labels') \<Rightarrow>
     (let loss' = test_step B self2 images' labels';
          self3 = self2\<lparr>test_loss := test_loss self2 @ [loss']\<rparr>
      in case print_epoch e self3 of Inl x \<Rightarrow> Inl x | Inr printed \<Rightarrow>
     (case save_best e self3 of Inl x \<Rightarrow> Inl x | Inr saved \<Rightarrow>
        Inr (self3, printed @ saved))))))))"

text \<open>The loop over \<^verbatim>\<open>range(training_cycles)\<close>; the effects of each cycle are kept apart.\<close>

fun run_loop ::
  "'net backend \<Rightarrow> 'net net_train \<Rightarrow> nat list
     \<Rightarrow> error + ('net net_train \<times> 'net effect list list)" where
  "run_loop B self [] = Inr (self, [])"
| "run_loop B self (e # es) =
     (case run_cycle B e self of Inl x \<Rightarrow> Inl x | Inr (self1, effs) \<Rightarrow>
     (case run_loop B self1 es of Inl x \<Rightarrow> Inl x | Inr (self2, tr) \<Rightarrow>
        Inr (self2, effs # tr)))"

text \<open>Lines 208 to 213: one evaluation of every test batch, in order.\<close>

fun final_evaluation ::
  "'net backend \<Rightarrow> 'net net_train \<Rightarrow> nat list \<Rightarrow> error + pyfloat list" where
  "final_evaluation B self [] = Inr []"
| "final_evaluation B self (idx # rest) =
     (case dataloader self (images_test_all self) (labels_test_all self) idx of
        Inl x \<Rightarrow> Inl x
      | Inr (images', labels') \<Rightarrow>
     (case final_evaluation B self rest of Inl x \<Rightarrow> Inl x | Inr ls \<Rightarrow>
        Inr (test_step B self images' labels' # ls)))"

text \<open>
  \<^verbatim>\<open>run\<close>: the loop, the final checkpoint, the evaluation over the whole test set (the
  mean divides by the number of test batches, so none raises \<^verbatim>\<open>ZeroDivisionError\<close>) and
  the optional plot.
\<close>

definition run :: "'net backend \<Rightarrow> 'net net_train \<Rightarrow> error + 'net run_result" where
  "run B self =
     (case run_loop B self [0..<nat (training_cycles self)] of
        Inl x \<Rightarrow> Inl x
      | Inr (self1, cycles) \<Rightarrow>
     (case final_evaluation B self1 [0..<len_batches (images_test_all self1)] of
        Inl x \<Rightarrow> Inl x
      | Inr losses \<Rightarrow>
          if len_batches (images_test_all self1) = 0 then Inl ZeroDivisionError
          else Inr \<lparr>result_net = net self1, final_self = self1, cycle_effects = cycles,
                    final_effects =
                      [TorchSave (os_path_join (savedir self1) ''model_weights_final.pt'')
                         (net self1),
                       PrintEvaluation losses]
                      @ (if plot_training_history self1
                         then [PlotLosses (train_loss self1) (test_loss self1)] else [])\<rparr>))"

subsection \<open>The constructor\<close>

text \<open>
  The arguments of \<^verbatim>\<open>net_train.__init__\<close>. The argument \<^verbatim>\<open>model\<close> is never read by the
  constructor and is left out.
\<close>

record init_args =
  arg_images_all :: "image_array pydata"
  arg_labels_all :: "label_array pydata"
  arg_images_test_all :: "image_array pydata"
  arg_labels_test_all :: "label_array pydata"
  arg_training_cycles :: int
  arg_batch_size :: int
  arg_model_type :: string
  arg_use_batchnorm :: bool
  arg_use_dropouts :: bool
  arg_loss :: string
  arg_with_dilation :: bool
  arg_print_loss :: int
  arg_savedir :: string
  arg_plot_losses :: bool

text \<open>
  Reading a name. A name is looked up among the local names of the function, then among
  the names the module binds at top level (its imports and its two classes), then among
  the builtins, none of which is called \<^verbatim>\<open>plot_training_history\<close>; a name found nowhere
  raises \<^verbatim>\<open>NameError\<close>. Of a value only what an \<^verbatim>\<open>if\<close> sees of it is kept.
\<close>

datatype pyval = PBool bool | PInt int | PStr string | PObj

fun truthy :: "pyval \<Rightarrow> bool" where
  "truthy (PBool b) = b"
| "truthy (PInt i) = (i \<noteq> 0)"
| "truthy (PStr s) = (s \<noteq> [])"
| "truthy PObj = True"

definition module_globals :: "string list" where
  "module_globals =
     [''os'', ''time'', ''np'', ''torch'', ''F'', ''dice'', ''dilnet'', ''dilUnet'',
      ''torch_format'', ''load_model'', ''Hook'', ''mock_forward'', ''plot_losses'',
      ''img_pad'', ''img_resize'', ''net_train'', ''net_predict'']"

text \<open>
  The local names of \<^verbatim>\<open>__init__\<close> at line 144: its parameters and the variables assigned
  above that line (the two batch counts exist in the array branch only).
\<close>

definition init_locals :: "init_args \<Rightarrow> nat \<Rightarrow> (string \<times> pyval) list" where
  "init_locals args nc =
     [(''self'', PObj), (''images_all'', PObj), (''labels_all'', PObj),
      (''images_test_all'', PObj), (''labels_test_all'', PObj),
      (''training_cycles'', PInt (arg_training_cycles args)),
      (''batch_size'', PInt (arg_batch_size args)), (''model'', PObj),
      (''model_type'', PStr (arg_model_type args)),
      (''use_batchnorm'', PBool (arg_use_batchnorm args)),
      (''use_dropouts'', PBool (arg_use_dropouts args)),
      (''loss'', PStr (arg_loss args)),
      (''with_dilation'', PBool (arg_with_dilation args)),
      (''print_loss'', PInt (arg_print_loss args)),
      (''savedir'', PStr (arg_savedir args)),
      (''plot_losses'', PBool (arg_plot_losses args)),
      (''num_classes'', PInt (int nc)),
      (''n_train_batches'', PObj), (''n_test_batches'', PObj)]"

definition load_name :: "(string \<times> pyval) list \<Rightarrow> string \<Rightarrow> error + pyval" where
  "load_name locals name =
     (case map_of locals name of
        Some v \<Rightarrow> Inr v
      | None \<Rightarrow> if name \<in> set module_globals then Inr PObj else Inl (NameError name))"

text \<open>
  \<^verbatim>\<open>np.random.randint(0, high, size)\<close>: \<^verbatim>\<open>ValueError\<close> for a negative size and for an
  empty range when a number has to be drawn; otherwise \<open>count\<close> numbers below \<open>high\<close>.
  The random source is a parameter: the \<open>i\<close>-th raw draw, reduced to the range.
\<close>

definition np_random_randint :: "(nat \<Rightarrow> nat) \<Rightarrow> nat \<Rightarrow> int \<Rightarrow> error + nat list" where
  "np_random_randint draws high count =
     (if count < 0 then Inl ValueError
      else if count = 0 then Inr []
      else if high = 0 then Inl ValueError
      else Inr (map (\<lambda>i. draws i mod high) [0..<nat count]))"

text \<open>
  \<^verbatim>\<open>net_train.__init__\<close>, lines 80 to 146: the head (\<open>init_classes\<close>), the network by model
  type, the loss, the two index vectors, the assignments of the attributes, of which the
  one at line 144 reads the name \<^verbatim>\<open>plot_training_history\<close>, and the call of \<^verbatim>\<open>run\<close>.
\<close>

definition net_train_init ::
  "'net backend \<Rightarrow> (nat \<Rightarrow> nat) \<Rightarrow> (nat \<Rightarrow> nat) \<Rightarrow> init_args \<Rightarrow> error + 'net run_result" where
  "net_train_init B draws_train draws_test args =
     (case init_classes (arg_images_all args) (arg_labels_all args)
             (arg_images_test_all args) (arg_labels_test_all args) (arg_batch_size args) of
        Inl x \<Rightarrow> Inl x
      | Inr (ia, la, ita, lta, nc) \<Rightarrow>
     (case (if arg_model_type args = ''dilUnet''
              then Inr (dilUnet B nc 16 (arg_with_dilation args) (arg_use_dropouts args)
                          (arg_use_batchnorm args))
            else if arg_model_type args = ''dilnet''
              then Inr (dilnet B nc 25 (arg_use_dropouts args) (arg_use_batchnorm args))
            else Inl UnsupportedModelType) of
        Inl x \<Rightarrow> Inl x
      | Inr net0 \<Rightarrow>
     (case (if arg_loss args = ''dice'' then Inr DiceLoss
            else if arg_loss args = ''ce'' \<and> nc = 1 then Inr BCEWithLogitsLoss
            else if arg_loss args = ''ce'' \<and> nc > 2 then Inr CrossEntropyLoss
            else Inl UnsupportedLoss) of
        Inl x \<Rightarrow> Inl x
      | Inr crit \<Rightarrow>
     (case np_random_randint draws_train (len_batches ia) (arg_training_cycles args) of
        Inl x \<Rightarrow> Inl x
      | Inr idx_train \<Rightarrow>
     (case np_random_randint draws_test (len_batches ita) (arg_training_cycles args) of
        Inl x \<Rightarrow> Inl x
      | Inr idx_test \<Rightarrow>
     (case load_name (init_locals args nc) ''plot_training_history'' of
        Inl x \<Rightarrow> Inl x
      | Inr v \<Rightarrow>
          run B \<lparr>net = net0, criterion = crit,
                 batch_idx_train = idx_train, batch_idx_test = idx_test,
                 images_all = ia, labels_all = la,
                 images_test_all = ita, labels_test_all = lta,
                 num_classes = nc, batch_size = arg_batch_size args,
                 training_cycles = arg_training_cycles args,
                 print_loss = arg_print_loss args, savedir = arg_savedir args,
                 plot_training_history = truthy v,
                 train_loss = [], test_loss = []\<rparr>))))))"

section \<open>Inference Controller: net_predict\<close>

text \<open>
  The padded image stack \<^verbatim>\<open>self.image_data\<close> is a tensor of shape (n, channels, width,
  height): the list of its \<open>n\<close> images and the three other extents. The image itself is
  opaque. An array of scores or probabilities has four axes as well: it is the list of
  its samples along the first axis together with the three other extents, each sample the
  flat list of its values in row-major order (as many as the product of the extents).
\<close>

record 'img stack =
  imgs :: "'img list"
  channels :: nat
  width :: nat
  height :: nat

record tensor4 =
  extents :: "nat \<times> nat \<times> nat"
  samples :: "real list list"

text \<open>
  The model's forward pass is a collaborator: it maps a batch to raw scores of shape
  (batch, classes, width, height). So are the two activations, the softmax over the
  channel axis and the sigmoid; by their definition in torch each acts on every sample of
  a batch separately and keeps its shape, so they are taken per sample. Moving tensors
  between devices does not change them and is left out.
\<close>

record 'img model_ops =
  forward :: "'img list \<Rightarrow> tensor4"
  softmax :: "nat \<times> nat \<times> nat \<Rightarrow> real list \<Rightarrow> real list"
  sigmoid :: "nat \<times> nat \<times> nat \<Rightarrow> real list \<Rightarrow> real list"

record 'img net_predict =
  nb_classes :: nat
  use_gpu :: bool
  image_data :: "'img stack"

record 'img predictions =
  predict_calls :: "'img list list"
  images_numpy :: "'img list"
  decoded_imgs :: tensor4
  reported_images :: nat

text \<open>
  \<^verbatim>\<open>permute(0, 2, 3, 1)\<close> on one sample: from (classes, width, height) to (width, height,
  classes); the value at (i, j, ch) of the result is the value at (ch, i, j) of the sample.
\<close>

definition permute_channels_last :: "nat \<times> nat \<times> nat \<Rightarrow> real list \<Rightarrow> real list" where
  "permute_channels_last e xs =
     (case e of (c, w, h) \<Rightarrow>
        concat (map (\<lambda>i. concat (map (\<lambda>j. map (\<lambda>ch. xs ! ((ch * w + i) * h + j)) [0..<c])
                                     [0..<h]))
                    [0..<w]))"

text \<open>\<^verbatim>\<open>predict\<close>, lines 287 to 304: forward pass, activation, channel axis last.\<close>

definition predict :: "'img model_ops \<Rightarrow> 'img net_predict \<Rightarrow> 'img list \<Rightarrow> tensor4" where
  "predict ops self images =
     (let prob = forward ops images;
          e = extents prob;
          act = (if nb_classes self > 1 then softmax ops e else sigmoid ops e)
      in case e of (c, w, h) \<Rightarrow>
           \<lparr>extents = (w, h, c),
            samples = map (\<lambda>s. permute_channels_last e (act s)) (samples prob)\<rparr>)"

text \<open>
  The assignment \<^verbatim>\<open>decoded_imgs[i, :, :, :] = value\<close> of line 315, where the row has the
  extents \<open>dst\<close> and the value is an array of four axes. numpy accepts the value when its
  first axis has length one and each other extent equals the row's or is one; it then
  stretches the axes of length one over the row. Any other value raises \<^verbatim>\<open>ValueError\<close>.
  A value of the extents of the row is copied as it is.
\<close>

definition broadcastable :: "nat \<times> nat \<times> nat \<Rightarrow> nat \<times> nat \<times> nat \<Rightarrow> bool" where
  "broadcastable src dst =
     (case src of (a', b', c') \<Rightarrow> case dst of (a, b, c) \<Rightarrow>
        (a' = a \<or> a' = 1) \<and> (b' = b \<or> b' = 1) \<and> (c' = c \<or> c' = 1))"

definition broadcast_to :: "nat \<times> nat \<times> nat \<Rightarrow> nat \<times> nat \<times> nat \<Rightarrow> real list \<Rightarrow> real list" where
  "broadcast_to src dst xs =
     (if src = dst then xs
      else case src of (a', b', c') \<Rightarrow> case dst of (a, b, c) \<Rightarrow>
        concat (map (\<lambda>i. concat (map (\<lambda>j. map (\<lambda>k.
            xs ! (((if a' = 1 then 0 else i) * b' + (if b' = 1 then 0 else j)) * c'
                   + (if c' = 1 then 0 else k))) [0..<c]) [0..<b])) [0..<a]))"

definition setitem_row ::
  "nat \<times> nat \<times> nat \<Rightarrow> real list list \<Rightarrow> nat \<Rightarrow> tensor4 \<Rightarrow> error + real list list" where
  "setitem_row dst rows i val =
     (case samples val of
        [s] \<Rightarrow> if broadcastable (extents val) dst
               then Inr (rows[i := broadcast_to (extents val) dst s])
               else Inl ValueError
      | _ \<Rightarrow> Inl ValueError)"

text \<open>
  Lines 314 and 315, the loop over \<^verbatim>\<open>range(n)\<close>: image \<open>i\<close> alone is passed to
  \<^verbatim>\<open>predict\<close> (the slice \<^verbatim>\<open>image_data[i:i+1]\<close>) and the result is assigned to row \<open>i\<close>.
  The batches passed to \<^verbatim>\<open>predict\<close> are recorded in the order of the calls.
\<close>

fun predict_each ::
  "'img model_ops \<Rightarrow> 'img net_predict \<Rightarrow> nat list \<Rightarrow> real list list
     \<Rightarrow> error + ('img list list \<times> real list list)" where
  "predict_each ops self [] rows = Inr ([], rows)"
| "predict_each ops self (i # rest) rows =
     (let batch = take 1 (drop i (imgs (image_data self)))
      in case setitem_row (width (image_data self), height (image_data self), nb_classes self)
                rows i (predict ops self batch) of
           Inl x \<Rightarrow> Inl x
         | Inr rows' \<Rightarrow>
             (case predict_each ops self rest rows' of
                Inl x \<Rightarrow> Inl x
              | Inr (calls, dec) \<Rightarrow> Inr (batch # calls, dec)))"

text \<open>
  The two branches of \<^verbatim>\<open>net_predict.run\<close>: line 310, the whole stack in one call of
  \<^verbatim>\<open>predict\<close>, whose result is returned as it is; and lines 312 to 315, an array of zeros
  of shape (n, width, height, nb_classes) filled row by row. The elapsed time of the
  printed line is not modelled; the number of images it reports is.
\<close>

definition decode_whole :: "'img model_ops \<Rightarrow> 'img net_predict \<Rightarrow> error + 'img predictions" where
  "decode_whole ops self =
     (let d = image_data self; decoded = predict ops self (imgs d)
      in Inr \<lparr>predict_calls = [imgs d], images_numpy = imgs d,
              decoded_imgs = decoded, reported_images = length (samples decoded)\<rparr>)"

definition decode_each :: "'img model_ops \<Rightarrow> 'img net_predict \<Rightarrow> error + 'img predictions" where
  "decode_each ops self =
     (let d = image_data self; n = length (imgs d); w = width d; h = height d
      in case predict_each ops self [0..<n]
                (replicate n (replicate (w * h * nb_classes self) 0)) of
           Inl x \<Rightarrow> Inl x
         | Inr (calls, rows) \<Rightarrow>
             Inr \<lparr>predict_calls = calls, images_numpy = imgs d,
                   decoded_imgs = \<lparr>extents = (w, h, nb_classes self), samples = rows\<rparr>,
                   reported_images = length rows\<rparr>)"

text \<open>\<^verbatim>\<open>net_predict.run\<close>, lines 306 to 322.\<close>

definition net_predict_run ::
  "'img model_ops \<Rightarrow> 'img net_predict \<Rightarrow> error + 'img predictions" where
  "net_predict_run ops self =
     (let d = image_data self
      in if length (imgs d) < 20 \<and> min (width d) (height d) < 512
         then decode_whole ops self
         else decode_each ops self)"

section \<open>Notions used to state the properties\<close>

text \<open>The arrays of a normalised data set, in order.\<close>

definition batch_values :: "'a batches \<Rightarrow> 'a list" where
  "batch_values bs = (case bs of BList xs \<Rightarrow> xs | BDict kvs \<Rightarrow> map snd kvs)"

text \<open>
  The training label arrays whose distinct values are counted: the items of a list, the
  values of a dictionary, the parts into which a bulk array is split.
\<close>

definition label_chunks :: "label_array pydata \<Rightarrow> int \<Rightarrow> error + label_array list" where
  "label_chunks lb b =
     (case lb of
        PyList xs \<Rightarrow> Inr xs
      | PyDict kvs \<Rightarrow> Inr (map snd kvs)
      | NdArray a \<Rightarrow> np_split a (int (length a) div b)
      | PyOther t \<Rightarrow> Inl UnsupportedFormat)"

text \<open>The number of samples of a bulk array; other containers have no such number.\<close>

definition sample_count :: "'s list pydata \<Rightarrow> nat" where
  "sample_count d = (case d of NdArray a \<Rightarrow> length a | _ \<Rightarrow> 0)"

text \<open>What the head of the constructor decides: an error or the output channel count.\<close>

definition detected_classes ::
  "error + (image_array batches \<times> label_array batches \<times> image_array batches
                 \<times> label_array batches \<times> nat) \<Rightarrow> error + nat" where
  "detected_classes r = (case r of Inl e \<Rightarrow> Inl e | Inr (ia, la, ita, lta, k) \<Rightarrow> Inr k)"

text \<open>A list of effects writes the "best" checkpoint of the directory \<open>d\<close>.\<close>

fun is_torch_save_to :: "string \<Rightarrow> 'net effect \<Rightarrow> bool" where
  "is_torch_save_to p (TorchSave q n) = (q = p)"
| "is_torch_save_to p (PrintEpoch k a b) = False"
| "is_torch_save_to p (PrintEvaluation ls) = False"
| "is_torch_save_to p (PlotLosses a b) = False"

definition saves_best :: "string \<Rightarrow> 'net effect list \<Rightarrow> bool" where
  "saves_best d effs =
     list_ex (is_torch_save_to (os_path_join d ''model_test_weights_best.pt'')) effs"

text \<open>
  Entry \<open>k\<close> of a loss history improves on the entries before it: it compares strictly
  less (Python's \<^verbatim>\<open><\<close>) than their minimum (Python's \<^verbatim>\<open>min\<close>).
\<close>

definition improves :: "pyfloat list \<Rightarrow> nat \<Rightarrow> bool" where
  "improves hist k =
     (case py_min (take k hist) of Inl x \<Rightarrow> False | Inr m \<Rightarrow> py_lt (hist ! k) m)"

text \<open>
  The attributes that decide whether a cycle raises: the index vectors, the data, the batch
  size, \<^verbatim>\<open>print_loss\<close> and the number of cycles. The network and the values of the
  losses are not among them.
\<close>

definition frame ::
  "'net net_train \<Rightarrow> nat list \<times> nat list \<times> image_array batches \<times> label_array batches
     \<times> image_array batches \<times> label_array batches \<times> int \<times> int \<times> int" where
  "frame s = (batch_idx_train s, batch_idx_test s, images_all s, labels_all s,
              images_test_all s, labels_test_all s, batch_size s, print_loss s,
              training_cycles s)"

definition cycle_ok :: "nat \<Rightarrow> 'net net_train \<Rightarrow> bool" where
  "cycle_ok e s =
     (case np_getitem (batch_idx_train s) e of Inl x \<Rightarrow> False | Inr bt \<Rightarrow>
     (case dataloader s (images_all s) (labels_all s) bt of Inl x \<Rightarrow> False | Inr b \<Rightarrow>
     (case np_getitem (batch_idx_test s) e of Inl x \<Rightarrow> False | Inr bs \<Rightarrow>
     (case dataloader s (images_test_all s) (labels_test_all s) bs of
        Inl x \<Rightarrow> False
      | Inr b' \<Rightarrow> (e = 0 \<or> (print_loss s \<noteq> 0 \<and> test_loss s \<noteq> []))))))"

subsection \<open>Concrete inputs\<close>

text \<open>
  A backend whose network state counts the optimisation steps taken and whose test loss
  after the \<open>n\<close>-th step is the \<open>n\<close>-th entry of a given list; a trainer of three cycles
  over one training and one test batch; and the shape of what \<open>run\<close> returns for them.
\<close>

definition scripted_backend :: "pyfloat list \<Rightarrow> nat backend" where
  "scripted_backend losses =
     \<lparr>dilUnet = (\<lambda>nc nf dil dr bn. 0), dilnet = (\<lambda>nc nf dr bn. 0),
      optimize = (\<lambda>c n im lb. (n + 1, Fin 1)),
      evaluate = (\<lambda>c n im lb. losses ! (n - 1))\<rparr>"

definition scripted_trainer :: "nat net_train" where
  "scripted_trainer =
     \<lparr>net = 0, criterion = DiceLoss,
      batch_idx_train = [0, 0, 0], batch_idx_test = [0, 0, 0],
      images_all = BList [[[0.5], [0.25]]], labels_all = BList [[[0, 1], [1, 0]]],
      images_test_all = BList [[[0.5]]], labels_test_all = BList [[[0, 1]]],
      num_classes = 1, batch_size = 32, training_cycles = 3, print_loss = 100,
      savedir = ''./'', plot_training_history = False, train_loss = [], test_loss = []\<rparr>"

definition scripted_result :: "pyfloat list \<Rightarrow> nat effect list list \<Rightarrow> nat run_result" where
  "scripted_result losses cycles =
     \<lparr>result_net = 3,
      final_self = scripted_trainer\<lparr>net := 3, train_loss := [Fin 1, Fin 1, Fin 1],
                                     test_loss := losses\<rparr>,
      cycle_effects = cycles,
      final_effects = [TorchSave ''./model_weights_final.pt'' 3,
                       PrintEvaluation [last losses]]\<rparr>"

definition example_args :: "string \<Rightarrow> init_args" where
  "example_args mt =
     \<lparr>arg_images_all = PyList [[[0.5], [0.25]]],
      arg_labels_all = PyList [[[0, 1], [1, 0]]],
      arg_images_test_all = PyList [[[0.5]]],
      arg_labels_test_all = PyList [[[0, 1]]],
      arg_training_cycles = 3, arg_batch_size = 32, arg_model_type = mt,
      arg_use_batchnorm = True, arg_use_dropouts = False, arg_loss = ''dice'',
      arg_with_dilation = True, arg_print_loss = 100, arg_savedir = ''./'',
      arg_plot_losses = True\<rparr>"

text \<open>
  A value can be assigned to a row of extents \<open>dst\<close>, and the row it then leaves there.
\<close>

definition assignable :: "nat \<times> nat \<times> nat \<Rightarrow> tensor4 \<Rightarrow> bool" where
  "assignable dst val = (length (samples val) = 1 \<and> broadcastable (extents val) dst)"

definition row_of :: "nat \<times> nat \<times> nat \<Rightarrow> tensor4 \<Rightarrow> real list" where
  "row_of dst val = broadcast_to (extents val) dst (hd (samples val))"

text \<open>
  Two models with one class and one score per image: the first scores every image by
  itself, the second scores every image of a batch by the size of the batch. Stacks of
  square images with the given side.
\<close>

definition example_ops :: "nat model_ops" where
  "example_ops =
     \<lparr>forward = (\<lambda>xs. \<lparr>extents = (1, 1, 1), samples = map (\<lambda>x. [real x]) xs\<rparr>),
      softmax = (\<lambda>e p. p), sigmoid = (\<lambda>e p. map (\<lambda>v. v / 2) p)\<rparr>"

definition batch_dependent_ops :: "nat model_ops" where
  "batch_dependent_ops =
     \<lparr>forward = (\<lambda>xs. \<lparr>extents = (1, 1, 1), samples = map (\<lambda>x. [real (length xs)]) xs\<rparr>),
      softmax = (\<lambda>e p. p), sigmoid = (\<lambda>e p. map (\<lambda>v. v / 2) p)\<rparr>"

definition example_stack :: "nat \<Rightarrow> nat list \<Rightarrow> nat net_predict" where
  "example_stack side xs = \<lparr>nb_classes = 1, use_gpu = False,
       image_data = \<lparr>imgs = xs, channels = 1, width = side, height = side\<rparr>\<rparr>"

definition twenty :: "nat list" where
  "twenty = [1, 2, 3, 4, 5, 6, 7, 8, 9, 10, 11, 12, 13, 14, 15, 16, 17, 18, 19, 20]"

section \<open>Properties of decode\<close>

text \<open>
  C6. In independent-output mode (\<^verbatim>\<open>correlated_output\<close> false) \<^verbatim>\<open>decode\<close> fails with
  UnsupportedMode for every latent-space input, whatever the GP model, its cached
  prediction strategy and the numerical backend are; it never returns a result.
\<close>

theorem decode_independent_unsupported:
  "\<not> correlated_output self \<Longrightarrow>
     decode ops self z_emb = Inl UnsupportedMode \<and>
     (\<forall>r. decode ops self z_emb \<noteq> Inr r)"
  by (simp add: decode_def)

theorem decode_independent_unsupported_witness:
  "\<not> correlated_output \<lparr>correlated_output = False, gp_model = (0::nat),
        prediction_strategy = Some (1::nat)\<rparr> \<and>
   decode \<lparr>compute_posterior = (\<lambda>g. g), train_embedding = (\<lambda>g. [g]),
           scale_to_bounds = (\<lambda>g zs. zs), exact_prediction = (\<lambda>g p zs. length zs + p)\<rparr>
     \<lparr>correlated_output = False, gp_model = (0::nat), prediction_strategy = Some (1::nat)\<rparr>
     [5, 7] = Inl UnsupportedMode"
  using decode_independent_unsupported
    [of "\<lparr>correlated_output = False, gp_model = (0::nat), prediction_strategy = Some (1::nat)\<rparr>"
        "\<lparr>compute_posterior = (\<lambda>g. g), train_embedding = (\<lambda>g. [g]),
          scale_to_bounds = (\<lambda>g zs. zs), exact_prediction = (\<lambda>g p zs. length zs + p)\<rparr>"
        "[5, 7]"]
  by simp

section \<open>Properties of the Batch Normalizer\<close>

lemma remdups_singleton: "set xs = {k} \<Longrightarrow> remdups xs = [k]"
proof -
  assume a: "set xs = {k}"
  have s: "set (remdups xs) = {k}" using a by simp
  have "length (remdups xs) = card (set xs)" by (simp add: length_remdups_card_conv)
  then have l: "length (remdups xs) = 1" using a by simp
  then obtain y where y: "remdups xs = [y]" by (cases "remdups xs") auto
  with s show ?thesis by simp
qed

lemma normalize_counts:
  "normalize_inputs im lb imt lbt b = Inr (ia, la, ita, lta, counts) \<Longrightarrow>
     counts = map np_unique_count (batch_values la) \<and> label_chunks lb b = Inr (batch_values la)"
  by (auto simp: normalize_inputs_def batch_values_def label_chunks_def Let_def
      split: pydata.splits sum.splits)

lemma np_split_error: "np_split a k = Inl e \<Longrightarrow> e = ValueError"
  by (auto simp: np_split_def Let_def split: if_splits)

lemma normalize_errors:
  "normalize_inputs im lb imt lbt b = Inl e \<Longrightarrow> e = UnsupportedFormat \<or> e = ValueError"
  by (auto simp: normalize_inputs_def Let_def split: pydata.splits sum.splits
      dest: np_split_error)

text \<open>
  C4 (as amended). The claim holds of the training label set; the test label set is not
  examined. Let the four inputs have one container type. If the branch on that type
  fails (a container that is none of the three, or a bulk array that \<^verbatim>\<open>np.split\<close> cannot
  divide equally), the constructor fails with that error. Otherwise let \<open>counts\<close> be the
  numbers of distinct values of the training label arrays (the items of the list, the
  values of the dictionary, the parts of the bulk array). If the set of these counts does
  not have exactly one element (the counts disagree, or there is no array), the
  constructor fails with InconsistentClasses; if the set is {1} it fails with
  MissingBackgroundClass; if it is {2} the output channel count is 1; if it is {k} with
  k > 2 the output channel count is k.
\<close>

theorem class_cardinality_detection:
  assumes types: "pytype_of im = pytype_of lb" "pytype_of lb = pytype_of imt"
      "pytype_of imt = pytype_of lbt"
  shows
    "(\<forall>e. normalize_inputs im lb imt lbt b = Inl e \<longrightarrow>
         init_classes im lb imt lbt b = Inl e \<and> (e = UnsupportedFormat \<or> e = ValueError)) \<and>
     (\<forall>ia la ita lta counts.
         normalize_inputs im lb imt lbt b = Inr (ia, la, ita, lta, counts) \<longrightarrow>
         label_chunks lb b = Inr (batch_values la) \<and>
         counts = map np_unique_count (batch_values la) \<and>
         (card (set counts) \<noteq> 1 \<longrightarrow> init_classes im lb imt lbt b = Inl InconsistentClasses) \<and>
         (set counts = {1} \<longrightarrow> init_classes im lb imt lbt b = Inl MissingBackgroundClass) \<and>
         (set counts = {2} \<longrightarrow> init_classes im lb imt lbt b = Inr (ia, la, ita, lta, 1)) \<and>
         (\<forall>k. 2 < k \<longrightarrow> set counts = {k} \<longrightarrow>
              init_classes im lb imt lbt b = Inr (ia, la, ita, lta, k)))"
proof -
  have err: "init_classes im lb imt lbt b = Inl e \<and> (e = UnsupportedFormat \<or> e = ValueError)"
    if "normalize_inputs im lb imt lbt b = Inl e" for e
    using that types normalize_errors[OF that] by (simp add: init_classes_def)
  have ok: "label_chunks lb b = Inr (batch_values la) \<and>
         counts = map np_unique_count (batch_values la) \<and>
         (card (set counts) \<noteq> 1 \<longrightarrow> init_classes im lb imt lbt b = Inl InconsistentClasses) \<and>
         (set counts = {1} \<longrightarrow> init_classes im lb imt lbt b = Inl MissingBackgroundClass) \<and>
         (set counts = {2} \<longrightarrow> init_classes im lb imt lbt b = Inr (ia, la, ita, lta, 1)) \<and>
         (\<forall>k. 2 < k \<longrightarrow> set counts = {k} \<longrightarrow>
              init_classes im lb imt lbt b = Inr (ia, la, ita, lta, k))"
    if norm: "normalize_inputs im lb imt lbt b = Inr (ia, la, ita, lta, counts)"
    for ia la ita lta counts
  proof -
    note c = normalize_counts[OF norm]
    have len: "length (remdups counts) = card (set counts)"
      by (simp add: length_remdups_card_conv)
    have one: "\<And>k. set counts = {k} \<Longrightarrow> remdups counts = [k]"
      by (rule remdups_singleton)
    have i1: "card (set counts) \<noteq> 1 \<longrightarrow> init_classes im lb imt lbt b = Inl InconsistentClasses"
      using types norm len by (simp add: init_classes_def)
    have i2: "set counts = {1} \<longrightarrow> init_classes im lb imt lbt b = Inl MissingBackgroundClass"
      using types norm one[of 1] by (auto simp: init_classes_def)
    have i3: "set counts = {2} \<longrightarrow> init_classes im lb imt lbt b = Inr (ia, la, ita, lta, 1)"
      using types norm one[of 2] by (auto simp: init_classes_def)
    have i4: "\<forall>k. 2 < k \<longrightarrow> set counts = {k} \<longrightarrow>
                init_classes im lb imt lbt b = Inr (ia, la, ita, lta, k)"
      using types norm one by (auto simp: init_classes_def)
    from c i1 i2 i3 i4 show ?thesis by blast
  qed
  from err ok show ?thesis by blast
qed

lemma upt2: "[0..<2] = [0, 1]"
  by (simp add: upt_rec)

theorem class_cardinality_detection_witness:
  "init_classes (PyList [[[0.5], [0.25]]]) (PyList [[[0, 1], [1, 0]], [[1, 1], [0, 0]]])
      (PyList [[[0.5]]]) (PyList [[[0, 1]]]) 4
     = Inr (BList [[[0.5], [0.25]]], BList [[[0, 1], [1, 0]], [[1, 1], [0, 0]]],
            BList [[[0.5]]], BList [[[0, 1]]], 1) \<and>
   init_classes (PyList [[[0.5]]]) (PyList [[[0, 1, 2]], [[2, 1, 0]]])
      (PyList [[[0.5]]]) (PyList [[[0, 1]]]) 4
     = Inr (BList [[[0.5]]], BList [[[0, 1, 2]], [[2, 1, 0]]],
            BList [[[0.5]]], BList [[[0, 1]]], 3) \<and>
   init_classes (PyDict [(0, [[0.5]])]) (PyDict [(0, [[7, 7]]), (1, [[3]])])
      (PyDict [(0, [[0.5]])]) (PyDict [(0, [[0, 1]])]) 4
     = Inl MissingBackgroundClass \<and>
   init_classes (PyList [[[0.5]]]) (PyList [[[0, 1]], [[0, 1, 2]]])
      (PyList [[[0.5]]]) (PyList [[[0, 1]]]) 4
     = Inl InconsistentClasses \<and>
   init_classes (NdArray [[0.5], [0.5], [0.5], [0.5]]) (NdArray [[0, 1], [1, 1], [0, 0], [1, 0]])
      (NdArray [[0.5], [0.5]]) (NdArray [[0, 1], [1, 0]]) 2
     = Inr (BList [[[0.5], [0.5]], [[0.5], [0.5]]], BList [[[0, 1], [1, 1]], [[0, 0], [1, 0]]],
            BList [[[0.5], [0.5]]], BList [[[0, 1], [1, 0]]], 1) \<and>
   init_classes (NdArray [[0.5], [0.5], [0.5], [0.5], [0.5]])
      (NdArray [[1], [1], [1], [1], [1]])
      (NdArray [[0.5], [0.5]]) (NdArray [[0, 1], [1, 0]]) 2
     = Inl ValueError"
proof -
  have tl: "pytype_of (PyList x) = pytype_of (PyList y)" for x :: "'a list" and y :: "'b list"
    by simp
  have td: "pytype_of (PyDict x) = pytype_of (PyDict y)"
    for x :: "(int \<times> 'a) list" and y :: "(int \<times> 'b) list"
    by simp
  have ta: "pytype_of (NdArray x) = pytype_of (NdArray y)" for x :: 'a and y :: 'b
    by simp
  have n1: "normalize_inputs (PyList [[[0.5], [0.25]]])
      (PyList [[[0, 1], [1, 0]], [[1, 1], [0, 0]]]) (PyList [[[0.5]]]) (PyList [[[0, 1]]]) 4
     = Inr (BList [[[0.5], [0.25]]], BList [[[0, 1], [1, 0]], [[1, 1], [0, 0]]],
            BList [[[0.5]]], BList [[[0, 1]]], [2, 2])"
    by (simp add: normalize_inputs_def np_unique_count_def)
  have n2: "normalize_inputs (PyList [[[0.5]]]) (PyList [[[0, 1, 2]], [[2, 1, 0]]])
      (PyList [[[0.5]]]) (PyList [[[0, 1]]]) 4
     = Inr (BList [[[0.5]]], BList [[[0, 1, 2]], [[2, 1, 0]]],
            BList [[[0.5]]], BList [[[0, 1]]], [3, 3])"
    by (simp add: normalize_inputs_def np_unique_count_def)
  have n3: "normalize_inputs (PyDict [(0, [[0.5]])]) (PyDict [(0, [[7, 7]]), (1, [[3]])])
      (PyDict [(0, [[0.5]])]) (PyDict [(0, [[0, 1]])]) 4
     = Inr (BDict [(0, [[0.5]])], BDict [(0, [[7, 7]]), (1, [[3]])],
            BDict [(0, [[0.5]])], BDict [(0, [[0, 1]])], [1, 1])"
    by (simp add: normalize_inputs_def np_unique_count_def)
  have n4: "normalize_inputs (PyList [[[0.5]]]) (PyList [[[0, 1]], [[0, 1, 2]]])
      (PyList [[[0.5]]]) (PyList [[[0, 1]]]) 4
     = Inr (BList [[[0.5]]], BList [[[0, 1]], [[0, 1, 2]]],
            BList [[[0.5]]], BList [[[0, 1]]], [2, 3])"
    by (simp add: normalize_inputs_def np_unique_count_def)
  have n5: "normalize_inputs (NdArray [[0.5], [0.5], [0.5], [0.5]])
      (NdArray [[0, 1], [1, 1], [0, 0], [1, 0]]) (NdArray [[0.5], [0.5]])
      (NdArray [[0, 1], [1, 0]]) 2
     = Inr (BList [[[0.5], [0.5]], [[0.5], [0.5]]], BList [[[0, 1], [1, 1]], [[0, 0], [1, 0]]],
            BList [[[0.5], [0.5]]], BList [[[0, 1], [1, 0]]], [2, 2])"
    by (simp add: normalize_inputs_def np_unique_count_def np_split_def upt2)
  have n6: "normalize_inputs (NdArray [[0.5], [0.5], [0.5], [0.5], [0.5]])
      (NdArray [[1], [1], [1], [1], [1]]) (NdArray [[0.5], [0.5]]) (NdArray [[0, 1], [1, 0]]) 2
     = Inl ValueError"
    by (simp add: normalize_inputs_def np_split_def)
  have s22: "set [2, 2 :: nat] = {2}" and s33: "set [3, 3 :: nat] = {3}"
    and s11: "set [1, 1 :: nat] = {1}" and c23: "card (set [2, 3 :: nat]) \<noteq> 1"
    by simp_all
  note r1 = class_cardinality_detection[OF tl tl tl, THEN conjunct2, rule_format, OF n1]
  note r2 = class_cardinality_detection[OF tl tl tl, THEN conjunct2, rule_format, OF n2]
  note r3 = class_cardinality_detection[OF td td td, THEN conjunct2, rule_format, OF n3]
  note r4 = class_cardinality_detection[OF tl tl tl, THEN conjunct2, rule_format, OF n4]
  note r5 = class_cardinality_detection[OF ta ta ta, THEN conjunct2, rule_format, OF n5]
  note r6 = class_cardinality_detection[OF ta ta ta, THEN conjunct1, rule_format, OF n6]
  from r1 s22 have a1: "init_classes (PyList [[[0.5], [0.25]]])
      (PyList [[[0, 1], [1, 0]], [[1, 1], [0, 0]]]) (PyList [[[0.5]]]) (PyList [[[0, 1]]]) 4
     = Inr (BList [[[0.5], [0.25]]], BList [[[0, 1], [1, 0]], [[1, 1], [0, 0]]],
            BList [[[0.5]]], BList [[[0, 1]]], 1)" by blast
  from r2 s33 have a2: "init_classes (PyList [[[0.5]]]) (PyList [[[0, 1, 2]], [[2, 1, 0]]])
      (PyList [[[0.5]]]) (PyList [[[0, 1]]]) 4
     = Inr (BList [[[0.5]]], BList [[[0, 1, 2]], [[2, 1, 0]]],
            BList [[[0.5]]], BList [[[0, 1]]], 3)" by simp
  from r3 s11 have a3: "init_classes (PyDict [(0, [[0.5]])]) (PyDict [(0, [[7, 7]]), (1, [[3]])])
      (PyDict [(0, [[0.5]])]) (PyDict [(0, [[0, 1]])]) 4 = Inl MissingBackgroundClass" by blast
  from r4 c23 have a4: "init_classes (PyList [[[0.5]]]) (PyList [[[0, 1]], [[0, 1, 2]]])
      (PyList [[[0.5]]]) (PyList [[[0, 1]]]) 4 = Inl InconsistentClasses" by blast
  from r5 s22 have a5: "init_classes (NdArray [[0.5], [0.5], [0.5], [0.5]])
      (NdArray [[0, 1], [1, 1], [0, 0], [1, 0]]) (NdArray [[0.5], [0.5]])
      (NdArray [[0, 1], [1, 0]]) 2
     = Inr (BList [[[0.5], [0.5]], [[0.5], [0.5]]], BList [[[0, 1], [1, 1]], [[0, 0], [1, 0]]],
            BList [[[0.5], [0.5]]], BList [[[0, 1], [1, 0]]], 1)" by blast
  from r6 have a6: "init_classes (NdArray [[0.5], [0.5], [0.5], [0.5], [0.5]])
      (NdArray [[1], [1], [1], [1], [1]]) (NdArray [[0.5], [0.5]]) (NdArray [[0, 1], [1, 0]]) 2
     = Inl ValueError" by blast
  from a1 a2 a3 a4 a5 a6 show ?thesis by blast
qed

theorem test_chunks_unchecked_counterexample:
  "np_unique_count [[7], [7]] = 1 \<and> np_unique_count [[1], [2]] = 2 \<and>
   init_classes (NdArray [[0.5], [0.5], [0.5], [0.5]]) (NdArray [[0, 1], [1, 1], [0, 0], [1, 0]])
      (NdArray [[0.5], [0.5], [0.5], [0.5]]) (NdArray [[7], [7], [1], [2]]) 2
     = Inr (BList [[[0.5], [0.5]], [[0.5], [0.5]]], BList [[[0, 1], [1, 1]], [[0, 0], [1, 0]]],
            BList [[[0.5], [0.5]], [[0.5], [0.5]]], BList [[[7], [7]], [[1], [2]]], 1)"
  by (simp add: init_classes_def normalize_inputs_def np_unique_count_def np_split_def upt2)

text \<open>
  C1. The bulk-array branch at 10 samples and batch size 3: \<^verbatim>\<open>np.divmod\<close> gives 3 batches,
  and \<^verbatim>\<open>np.split\<close> of 10 samples into 3 equal parts raises \<^verbatim>\<open>ValueError\<close>. The constructor
  fails where the claim promises 3 batches of 3 samples and one discarded sample.
\<close>

theorem bulk_split_unequal_division:
  "init_classes (NdArray (replicate 10 [0.5])) (NdArray (replicate 10 [0, 1]))
      (NdArray (replicate 10 [0.5])) (NdArray (replicate 10 [0, 1])) 3 = Inl ValueError"
  by (simp add: init_classes_def normalize_inputs_def np_split_def)

text \<open>
  What holds where the split succeeds: it yields the requested number of equal parts, and
  a batch handed on by \<open>dataloader\<close> has at most \<^verbatim>\<open>batch_size\<close> samples.
\<close>

lemma np_split_parts:
  "np_split ary k = Inr cs \<Longrightarrow>
     length cs = nat k \<and> (\<forall>c\<in>set cs. length c = length ary div nat k)"
proof -
  assume a: "np_split ary k = Inr cs"
  then have k: "0 < k" and m: "int (length ary) mod k = 0"
    by (auto simp: np_split_def split: if_splits)
  let ?sz = "length ary div nat k"
  have cs: "cs = map (\<lambda>i. take ?sz (drop (i * ?sz) ary)) [0..<nat k]"
    using a k m by (simp add: np_split_def Let_def)
  have "int (length ary) mod int (nat k) = 0" using k m by simp
  then have "length ary mod nat k = 0" by (metis of_nat_mod of_nat_eq_0_iff)
  then have d: "nat k * ?sz = length ary" by auto
  have "length (take ?sz (drop (i * ?sz) ary)) = ?sz" if "i < nat k" for i
  proof -
    have "Suc i \<le> nat k" using that by simp
    then have "Suc i * ?sz \<le> nat k * ?sz" by (rule mult_le_mono1)
    with d have "i * ?sz + ?sz \<le> length ary" by simp
    then show ?thesis by simp
  qed
  then show ?thesis using cs by auto
qed

lemma dataloader_batch_bound:
  "dataloader self ims lbls i = Inr (im, lb) \<Longrightarrow> 0 \<le> batch_size self \<Longrightarrow>
     length im \<le> nat (batch_size self) \<and> length lb \<le> nat (batch_size self)"
  by (auto simp: dataloader_def slice_to_def split: sum.splits)

text \<open>
  C10 (as amended). The outcome of the head of the constructor, an error or the output
  channel count, does not depend on the values of the test labels: test labels of the same
  container type (and, for a bulk array, of the same number of samples) give the same
  outcome. Class cardinality is computed from the training labels alone.
\<close>

theorem classes_from_training_labels_only:
  assumes "pytype_of lbt' = pytype_of lbt" and "sample_count lbt' = sample_count lbt"
  shows "detected_classes (init_classes im lb imt lbt' b)
       = detected_classes (init_classes im lb imt lbt b)"
proof (cases lbt)
  case (NdArray a)
  then obtain a' where a': "lbt' = NdArray a'" using assms(1) by (cases lbt') auto
  with NdArray assms(2) have len: "length a' = length a" by (simp add: sample_count_def)
  show ?thesis
    using len unfolding NdArray a' 
    by (cases im; cases lb; cases imt)
       (auto simp: init_classes_def normalize_inputs_def detected_classes_def Let_def np_split_def
          split: sum.splits)
next
  case (PyList x)
  then obtain x' where "lbt' = PyList x'" using assms(1) by (cases lbt') auto
  with PyList show ?thesis
    by (cases im; cases lb; cases imt)
       (auto simp: init_classes_def normalize_inputs_def detected_classes_def Let_def)
next
  case (PyDict x)
  then obtain x' where "lbt' = PyDict x'" using assms(1) by (cases lbt') auto
  with PyDict show ?thesis
    by (cases im; cases lb; cases imt)
       (auto simp: init_classes_def normalize_inputs_def detected_classes_def Let_def)
next
  case (PyOther x)
  then have "lbt' = PyOther x" using assms(1) by (cases lbt') auto
  with PyOther show ?thesis by simp
qed

theorem classes_from_training_labels_only_witness:
  "detected_classes (init_classes (PyList [[[0.5]]]) (PyList [[[0, 1]]]) (PyList [[[0.5]]])
       (PyList [[[5, 5]], [[1, 2, 3]]]) 4) = Inr 1 \<and>
   detected_classes (init_classes (PyList [[[0.5]]]) (PyList [[[0, 1]]]) (PyList [[[0.5]]])
       (PyList [[[0, 1]]]) 4) = Inr 1"
  using classes_from_training_labels_only
    [of "PyList [[[5, 5]], [[1, 2, 3]]]" "PyList [[[0, 1]]]" "PyList [[[0.5]]]"
        "PyList [[[0, 1]]]" "PyList [[[0.5]]]" 4]
  by (simp add: sample_count_def detected_classes_def init_classes_def normalize_inputs_def
      np_unique_count_def)

theorem test_labels_unchecked_counterexample:
  "np_unique_count [[5, 5]] = 1 \<and> np_unique_count [[1, 2, 3]] = 3 \<and>
   init_classes (PyList [[[0.5]]]) (PyList [[[0, 1]]]) (PyList [[[0.5]]])
       (PyList [[[5, 5]], [[1, 2, 3]]]) 4
     = Inr (BList [[[0.5]]], BList [[[0, 1]]], BList [[[0.5]]],
            BList [[[5, 5]], [[1, 2, 3]]], 1)"
  by (simp add: init_classes_def normalize_inputs_def np_unique_count_def)

section \<open>Properties of the constructor of net_train\<close>

lemma load_plot_training_history:
  "load_name (init_locals args nc) ''plot_training_history'' = Inl (NameError ''plot_training_history'')"
  by (simp add: load_name_def init_locals_def module_globals_def)

text \<open>
  C2 (as amended). For all arguments the constructor raises: it never returns an object,
  and \<^verbatim>\<open>run\<close> is never reached through it. When every statement before line 144 succeeds
  (the head accepts the data, the model type is one of the two known ones, the loss fits
  the class count, and the index vectors can be drawn), the exception is the
  \<^verbatim>\<open>NameError\<close> for \<^verbatim>\<open>plot_training_history\<close>.
\<close>

theorem constructor_never_completes:
  "(\<forall>r. net_train_init B draws_train draws_test args \<noteq> Inr r) \<and>
   (init_classes (arg_images_all args) (arg_labels_all args) (arg_images_test_all args)
        (arg_labels_test_all args) (arg_batch_size args) = Inr (ia, la, ita, lta, nc) \<longrightarrow>
    (arg_model_type args = ''dilUnet'' \<or> arg_model_type args = ''dilnet'') \<longrightarrow>
    (arg_loss args = ''dice'' \<or> (arg_loss args = ''ce'' \<and> (nc = 1 \<or> 2 < nc))) \<longrightarrow>
    0 \<le> arg_training_cycles args \<longrightarrow>
    (0 < arg_training_cycles args \<longrightarrow> 0 < len_batches ia \<and> 0 < len_batches ita) \<longrightarrow>
    net_train_init B draws_train draws_test args = Inl (NameError ''plot_training_history''))"
proof -
  have a: "\<forall>r. net_train_init B draws_train draws_test args \<noteq> Inr r"
    by (simp add: net_train_init_def load_plot_training_history split: sum.splits prod.splits)
  have b: "net_train_init B draws_train draws_test args = Inl (NameError ''plot_training_history'')"
    if "init_classes (arg_images_all args) (arg_labels_all args) (arg_images_test_all args)
        (arg_labels_test_all args) (arg_batch_size args) = Inr (ia, la, ita, lta, nc)"
      and "arg_model_type args = ''dilUnet'' \<or> arg_model_type args = ''dilnet''"
      and "arg_loss args = ''dice'' \<or> (arg_loss args = ''ce'' \<and> (nc = 1 \<or> 2 < nc))"
      and "0 \<le> arg_training_cycles args"
      and "0 < arg_training_cycles args \<longrightarrow> 0 < len_batches ia \<and> 0 < len_batches ita"
    using that
    by (auto simp: net_train_init_def load_plot_training_history np_random_randint_def)
  from a b show ?thesis by blast
qed

theorem constructor_never_completes_witness:
  "net_train_init (scripted_backend []) (\<lambda>i. i) (\<lambda>i. i) (example_args ''dilUnet'')
     = Inl (NameError ''plot_training_history'')"
  using constructor_never_completes
    [of "scripted_backend []" "\<lambda>i. i" "\<lambda>i. i" "example_args ''dilUnet''"
        "BList [[[0.5], [0.25]]]" "BList [[[0, 1], [1, 0]]]" "BList [[[0.5]]]" "BList [[[0, 1]]]" 1]
  by (simp add: example_args_def init_classes_def normalize_inputs_def np_unique_count_def)

theorem constructor_other_error_counterexample:
  "init_classes (arg_images_all (example_args ''resnet'')) (arg_labels_all (example_args ''resnet''))
      (arg_images_test_all (example_args ''resnet'')) (arg_labels_test_all (example_args ''resnet''))
      (arg_batch_size (example_args ''resnet''))
     = Inr (BList [[[0.5], [0.25]]], BList [[[0, 1], [1, 0]]], BList [[[0.5]]], BList [[[0, 1]]], 1) \<and>
   net_train_init (scripted_backend []) (\<lambda>i. i) (\<lambda>i. i) (example_args ''resnet'')
     = Inl UnsupportedModelType \<and>
   net_train_init (scripted_backend []) (\<lambda>i. i) (\<lambda>i. i) (example_args ''resnet'')
     \<noteq> Inl (NameError ''plot_training_history'')"
  by (simp add: net_train_init_def example_args_def init_classes_def normalize_inputs_def
      np_unique_count_def)

section \<open>Properties of the Inference Controller\<close>

lemma setitem_row_eq:
  "setitem_row dst rows i val =
     (if assignable dst val then Inr (rows[i := row_of dst val]) else Inl ValueError)"
proof (cases "samples val")
  case Nil
  then show ?thesis by (simp add: setitem_row_def assignable_def)
next
  case (Cons s rest)
  then show ?thesis
    by (cases rest) (simp_all add: setitem_row_def assignable_def row_of_def)
qed

lemma predict_each_eq:
  "predict_each ops self idxs rows =
     (if \<forall>i\<in>set idxs. assignable (width (image_data self), height (image_data self), nb_classes self)
                          (predict ops self (take 1 (drop i (imgs (image_data self)))))
      then Inr (map (\<lambda>i. take 1 (drop i (imgs (image_data self)))) idxs,
                fold (\<lambda>i rs. rs[i := row_of (width (image_data self), height (image_data self),
                                              nb_classes self)
                                       (predict ops self (take 1 (drop i (imgs (image_data self)))))])
                     idxs rows)
      else Inl ValueError)"
proof (induction idxs arbitrary: rows)
  case Nil
  then show ?case by simp
next
  case (Cons i rest)
  show ?case
    by (simp add: Let_def setitem_row_eq Cons.IH)
qed

lemma fold_update_upt:
  "k \<le> length rows \<Longrightarrow>
     fold (\<lambda>i rs. rs[i := f i]) [0..<k] rows = map f [0..<k] @ drop k rows"
proof (induction k)
  case 0
  then show ?case by simp
next
  case (Suc k)
  then have k: "k < length rows" by simp
  have "fold (\<lambda>i rs. rs[i := f i]) [0..<Suc k] rows
          = (map f [0..<k] @ drop k rows)[k := f k]"
    using Suc by simp
  also have "\<dots> = map f [0..<k] @ (drop k rows)[0 := f k]"
    by (simp add: list_update_append)
  also have "drop k rows = rows ! k # drop (Suc k) rows"
    using k by (simp add: Cons_nth_drop_Suc)
  finally show ?case by simp
qed

lemma take1_drop: "i < length xs \<Longrightarrow> take 1 (drop i xs) = [xs ! i]"
  by (metis One_nat_def Cons_nth_drop_Suc take0 take_Suc_Cons)

lemma map_singletons: "map (\<lambda>i. g (take 1 (drop i xs))) [0..<length xs] = map (\<lambda>x. g [x]) xs"
proof (rule nth_equalityI)
  show "length (map (\<lambda>i. g (take 1 (drop i xs))) [0..<length xs]) = length (map (\<lambda>x. g [x]) xs)"
    by simp
next
  fix i assume "i < length (map (\<lambda>i. g (take 1 (drop i xs))) [0..<length xs])"
  then have i: "i < length xs" by simp
  with take1_drop[OF i] show "map (\<lambda>i. g (take 1 (drop i xs))) [0..<length xs] ! i
      = map (\<lambda>x. g [x]) xs ! i"
    by simp
qed

lemma all_singletons:
  "(\<forall>i\<in>set [0..<length xs]. P (take 1 (drop i xs))) = (\<forall>x\<in>set xs. P [x])"
proof
  assume a: "\<forall>i\<in>set [0..<length xs]. P (take 1 (drop i xs))"
  show "\<forall>x\<in>set xs. P [x]"
  proof
    fix x assume "x \<in> set xs"
    then obtain i where i: "i < length xs" "xs ! i = x" by (auto simp: in_set_conv_nth)
    from a i(1) have "P (take 1 (drop i xs))" by simp
    with take1_drop[OF i(1)] i(2) show "P [x]" by simp
  qed
next
  assume a: "\<forall>x\<in>set xs. P [x]"
  show "\<forall>i\<in>set [0..<length xs]. P (take 1 (drop i xs))"
  proof
    fix i assume "i \<in> set [0..<length xs]"
    then have i: "i < length xs" by simp
    with a take1_drop[OF i] show "P (take 1 (drop i xs))" by simp
  qed
qed

lemma decode_each_eq:
  "decode_each ops self =
     (if \<forall>x\<in>set (imgs (image_data self)).
           assignable (width (image_data self), height (image_data self), nb_classes self)
             (predict ops self [x])
      then Inr \<lparr>predict_calls = map (\<lambda>x. [x]) (imgs (image_data self)),
                images_numpy = imgs (image_data self),
                decoded_imgs =
                  \<lparr>extents = (width (image_data self), height (image_data self), nb_classes self),
                   samples = map (\<lambda>x. row_of (width (image_data self), height (image_data self),
                                                nb_classes self) (predict ops self [x]))
                                 (imgs (image_data self))\<rparr>,
                reported_images = length (imgs (image_data self))\<rparr>
      else Inl ValueError)"
proof -
  let ?xs = "imgs (image_data self)"
  let ?dst = "(width (image_data self), height (image_data self), nb_classes self)"
  let ?z = "replicate (length ?xs)
              (replicate (width (image_data self) * height (image_data self) * nb_classes self)
                 (0::real))"
  have a: "(\<forall>i\<in>set [0..<length ?xs]. assignable ?dst (predict ops self (take 1 (drop i ?xs))))
            = (\<forall>x\<in>set ?xs. assignable ?dst (predict ops self [x]))"
    by (rule all_singletons[of ?xs "\<lambda>b. assignable ?dst (predict ops self b)"])
  have b: "map (\<lambda>i. take 1 (drop i ?xs)) [0..<length ?xs] = map (\<lambda>x. [x]) ?xs"
    by (rule map_singletons[of "\<lambda>b. b" ?xs])
  have "fold (\<lambda>i rs. rs[i := row_of ?dst (predict ops self (take 1 (drop i ?xs)))])
            [0..<length ?xs] ?z
          = map (\<lambda>i. row_of ?dst (predict ops self (take 1 (drop i ?xs)))) [0..<length ?xs]"
    using fold_update_upt[of "length ?xs" ?z
            "\<lambda>i. row_of ?dst (predict ops self (take 1 (drop i ?xs)))"] by simp
  also have "\<dots> = map (\<lambda>x. row_of ?dst (predict ops self [x])) ?xs"
    by (rule map_singletons[of "\<lambda>b. row_of ?dst (predict ops self b)" ?xs])
  finally have c: "fold (\<lambda>i rs. rs[i := row_of ?dst (predict ops self (take 1 (drop i ?xs)))])
            [0..<length ?xs] ?z = map (\<lambda>x. row_of ?dst (predict ops self [x])) ?xs" .
  show ?thesis
    unfolding decode_each_def Let_def predict_each_eq a b c by simp
qed

text \<open>
  C5 (as amended). If the stack has fewer than 20 images and the smaller spatial extent is
  below 512, \<^verbatim>\<open>run\<close> calls \<^verbatim>\<open>predict\<close> once, on the whole stack, and returns its result as
  it is. Otherwise it calls \<^verbatim>\<open>predict\<close> once per image, on that image alone, in order, and
  returns the array of shape (n, width, height, nb_classes) whose row \<open>i\<close> is the result
  for image \<open>i\<close>, stretched to the row; it raises \<^verbatim>\<open>ValueError\<close> exactly when some result
  cannot be assigned to a row. For a stack that is not a single image, the whole stack is
  processed as one batch if and only if the condition holds; for a single image that fails
  the condition, the one call per image is a call on the whole stack.
\<close>

theorem tiling_policy:
  fixes ops :: "'img model_ops" and self :: "'img net_predict"
  defines "xs \<equiv> imgs (image_data self)"
    and "dst \<equiv> (width (image_data self), height (image_data self), nb_classes self)"
    and "small \<equiv> (length (imgs (image_data self)) < 20
                    \<and> min (width (image_data self)) (height (image_data self)) < 512)"
  shows
    "(small \<longrightarrow>
        net_predict_run ops self =
          Inr \<lparr>predict_calls = [xs], images_numpy = xs,
                decoded_imgs = predict ops self xs,
                reported_images = length (samples (predict ops self xs))\<rparr>) \<and>
     (\<not> small \<longrightarrow>
        net_predict_run ops self =
          (if \<forall>x\<in>set xs. assignable dst (predict ops self [x])
           then Inr \<lparr>predict_calls = map (\<lambda>x. [x]) xs, images_numpy = xs,
                     decoded_imgs =
                       \<lparr>extents = dst,
                        samples = map (\<lambda>x. row_of dst (predict ops self [x])) xs\<rparr>,
                     reported_images = length xs\<rparr>
           else Inl ValueError)) \<and>
     (length xs \<noteq> 1 \<longrightarrow>
        (\<forall>r. net_predict_run ops self = Inr r \<longrightarrow> (predict_calls r = [xs]) = small))"
proof -
  have a: "small \<longrightarrow>
        net_predict_run ops self =
          Inr \<lparr>predict_calls = [xs], images_numpy = xs,
                decoded_imgs = predict ops self xs,
                reported_images = length (samples (predict ops self xs))\<rparr>"
    by (simp add: net_predict_run_def decode_whole_def Let_def xs_def small_def)
  have b: "\<not> small \<longrightarrow>
        net_predict_run ops self =
          (if \<forall>x\<in>set xs. assignable dst (predict ops self [x])
           then Inr \<lparr>predict_calls = map (\<lambda>x. [x]) xs, images_numpy = xs,
                     decoded_imgs =
                       \<lparr>extents = dst,
                        samples = map (\<lambda>x. row_of dst (predict ops self [x])) xs\<rparr>,
                     reported_images = length xs\<rparr>
           else Inl ValueError)"
    unfolding xs_def dst_def small_def
    by (simp add: net_predict_run_def Let_def decode_each_eq)
  have c: "(predict_calls r = [xs]) = small"
    if l: "length xs \<noteq> 1" and r: "net_predict_run ops self = Inr r" for r
  proof (cases small)
    case True
    with a r show ?thesis by auto
  next
    case False
    with b r have "predict_calls r = map (\<lambda>x. [x]) xs" by (auto split: if_splits)
    moreover have "map (\<lambda>x. [x]) xs \<noteq> [xs]"
    proof
      assume "map (\<lambda>x. [x]) xs = [xs]"
      then have "length (map (\<lambda>x. [x]) xs) = length [xs]" by simp
      with l show False by simp
    qed
    ultimately show ?thesis using False by simp
  qed
  from a b c show ?thesis by blast
qed

theorem tiling_policy_witness:
  "net_predict_run example_ops (example_stack 1 [3, 4])
     = Inr \<lparr>predict_calls = [[3, 4]], images_numpy = [3, 4],
            decoded_imgs = \<lparr>extents = (1, 1, 1), samples = [[3 / 2], [2]]\<rparr>,
            reported_images = 2\<rparr> \<and>
   net_predict_run example_ops (example_stack 1 twenty)
     = Inr \<lparr>predict_calls = map (\<lambda>x. [x]) twenty, images_numpy = twenty,
            decoded_imgs = \<lparr>extents = (1, 1, 1), samples = map (\<lambda>x. [real x / 2]) twenty\<rparr>,
            reported_images = 20\<rparr>"
  using tiling_policy[of "example_stack 1 [3, 4]" example_ops]
    tiling_policy[of "example_stack 1 twenty" example_ops]
  by (simp add: example_stack_def example_ops_def twenty_def predict_def
      permute_channels_last_def assignable_def broadcastable_def row_of_def broadcast_to_def)

theorem single_image_counterexample:
  "\<not> (length [7::nat] < 20 \<and> min (512::nat) 512 < 512) \<and>
   imgs (image_data (example_stack 512 [7])) = [7] \<and>
   map_sum id predict_calls (net_predict_run example_ops (example_stack 512 [7])) = Inr [[7]]"
  by (simp add: net_predict_run_def decode_each_eq example_stack_def example_ops_def predict_def
      permute_channels_last_def assignable_def broadcastable_def)

lemma concat_singletons:
  "\<forall>x\<in>set xs. length (f x) = 1 \<Longrightarrow> concat (map f xs) = map (\<lambda>x. hd (f x)) xs"
proof (induction xs)
  case Nil
  then show ?case by simp
next
  case (Cons x xs)
  then have "length (f x) = 1" by simp
  then obtain s where "f x = [s]" by (cases "f x") auto
  with Cons show ?case by simp
qed

text \<open>
  C8 (as amended). Let the forward pass treat the images of the stack independently (its
  output on the stack is the stack of its outputs on the single images, one per image) and
  return \<^verbatim>\<open>nb_classes\<close> maps of the size of the padded images. Then both branches of
  \<^verbatim>\<open>run\<close> return, with the same probability maps. For a model whose output on an image
  depends on the batch the two branches differ.
\<close>

theorem tiling_paths_agree:
  fixes ops :: "'img model_ops" and self :: "'img net_predict"
  defines "xs \<equiv> imgs (image_data self)"
  assumes indep: "samples (forward ops xs) = concat (map (\<lambda>x. samples (forward ops [x])) xs)"
    and one: "\<forall>x\<in>set xs. length (samples (forward ops [x])) = 1"
    and shape: "extents (forward ops xs)
                  = (nb_classes self, width (image_data self), height (image_data self))"
    and shapes: "\<forall>x\<in>set xs. extents (forward ops [x])
                  = (nb_classes self, width (image_data self), height (image_data self))"
  shows "\<exists>r1 r2. decode_whole ops self = Inr r1 \<and> decode_each ops self = Inr r2 \<and>
           decoded_imgs r1 = decoded_imgs r2 \<and> images_numpy r1 = images_numpy r2 \<and>
           reported_images r1 = reported_images r2"
proof -
  let ?dst = "(width (image_data self), height (image_data self), nb_classes self)"
  let ?e = "(nb_classes self, width (image_data self), height (image_data self))"
  let ?act = "if nb_classes self > 1 then softmax ops ?e else sigmoid ops ?e"
  let ?g = "\<lambda>x. permute_channels_last ?e (?act (hd (samples (forward ops [x]))))"
  have whole: "predict ops self xs = \<lparr>extents = ?dst, samples = map ?g xs\<rparr>"
    using shape indep concat_singletons[OF one]
    by (simp add: predict_def Let_def)
  have single: "predict ops self [x] = \<lparr>extents = ?dst, samples = [?g x]\<rparr>" if "x \<in> set xs" for x
  proof -
    from that one have "length (samples (forward ops [x])) = 1" by simp
    then obtain s where "samples (forward ops [x]) = [s]"
      by (cases "samples (forward ops [x])") auto
    with that shapes show ?thesis by (simp add: predict_def Let_def)
  qed
  have ok: "\<forall>x\<in>set xs. assignable ?dst (predict ops self [x])"
    using single by (simp add: assignable_def broadcastable_def)
  have rows: "map (\<lambda>x. row_of ?dst (predict ops self [x])) xs = map ?g xs"
    using single by (simp add: row_of_def broadcast_to_def)
  have each: "decode_each ops self =
      Inr \<lparr>predict_calls = map (\<lambda>x. [x]) xs, images_numpy = xs,
            decoded_imgs = \<lparr>extents = ?dst, samples = map ?g xs\<rparr>,
            reported_images = length xs\<rparr>"
    using ok rows unfolding xs_def decode_each_eq by simp
  have first: "decode_whole ops self =
      Inr \<lparr>predict_calls = [xs], images_numpy = xs,
            decoded_imgs = \<lparr>extents = ?dst, samples = map ?g xs\<rparr>,
            reported_images = length xs\<rparr>"
    using whole by (simp add: decode_whole_def Let_def xs_def)
  show ?thesis unfolding each first by simp
qed

theorem tiling_paths_agree_witness:
  "(\<exists>r1 r2. decode_whole example_ops (example_stack 1 [3, 4]) = Inr r1 \<and>
        decode_each example_ops (example_stack 1 [3, 4]) = Inr r2 \<and>
        decoded_imgs r1 = decoded_imgs r2 \<and> images_numpy r1 = images_numpy r2 \<and>
        reported_images r1 = reported_images r2)"
  using tiling_paths_agree[of example_ops "example_stack 1 [3, 4]"]
  by (simp add: example_ops_def example_stack_def)

theorem batch_dependent_counterexample:
  "map_sum id decoded_imgs (decode_whole batch_dependent_ops (example_stack 1 [3, 4]))
     = Inr \<lparr>extents = (1, 1, 1), samples = [[1], [1]]\<rparr> \<and>
   map_sum id decoded_imgs (decode_each batch_dependent_ops (example_stack 1 [3, 4]))
     = Inr \<lparr>extents = (1, 1, 1), samples = [[1 / 2], [1 / 2]]\<rparr>"
  by (simp add: decode_whole_def decode_each_eq example_stack_def batch_dependent_ops_def
      predict_def permute_channels_last_def assignable_def broadcastable_def row_of_def
      broadcast_to_def Let_def)

section \<open>Properties of the training loop\<close>

subsection \<open>The effects of one cycle and of the loop\<close>

lemma saves_best_append: "saves_best d (a @ b) = (saves_best d a \<or> saves_best d b)"
  by (auto simp: saves_best_def list_ex_iff)

lemma print_epoch_no_save: "print_epoch e s = Inr pr \<Longrightarrow> \<not> saves_best d pr"
  by (auto simp: print_epoch_def saves_best_def split: if_splits)

lemma save_best_iff:
  assumes "save_best e s = Inr saved" and "test_loss s = h @ [l]"
  shows "saves_best (savedir s) saved = (0 < e \<and> (\<exists>m. py_min h = Inr m \<and> py_lt l m))"
  using assms by (auto simp: save_best_def saves_best_def split: if_splits sum.splits)

lemma run_cycle_step:
  assumes "run_cycle B e self = Inr (self', effs)"
  shows "\<exists>l. test_loss self' = test_loss self @ [l] \<and> savedir self' = savedir self \<and>
           saves_best (savedir self) effs
             = (0 < e \<and> (\<exists>m. py_min (test_loss self) = Inr m \<and> py_lt l m))"
proof -
  from assms obtain s3 printed saved where
    p: "print_epoch e s3 = Inr printed" and s: "save_best e s3 = Inr saved"
    and e: "self' = s3" "effs = printed @ saved"
    and t: "\<exists>l. test_loss s3 = test_loss self @ [l]" and d: "savedir s3 = savedir self"
    by (auto simp: run_cycle_def train_step_def Let_def split: sum.splits prod.splits)
  from t obtain l where l: "test_loss s3 = test_loss self @ [l]" by blast
  from save_best_iff[OF s l] print_epoch_no_save[OF p, of "savedir self"] d e l
  show ?thesis by (auto simp: saves_best_append)
qed

lemma run_loop_trace:
  "run_loop B self es = Inr (self', tr) \<Longrightarrow>
     length tr = length es \<and> savedir self' = savedir self \<and>
     (\<exists>ls. length ls = length es \<and> test_loss self' = test_loss self @ ls) \<and>
     (\<forall>i<length es. saves_best (savedir self) (tr ! i)
        = (0 < es ! i \<and>
           (\<exists>m. py_min (take (length (test_loss self) + i) (test_loss self')) = Inr m
                \<and> py_lt (test_loss self' ! (length (test_loss self) + i)) m)))"
proof (induction es arbitrary: self tr)
  case Nil
  then show ?case by simp
next
  case (Cons e es)
  from Cons.prems obtain s1 effs tr' where
    c: "run_cycle B e self = Inr (s1, effs)" and r: "run_loop B s1 es = Inr (self', tr')"
    and tr: "tr = effs # tr'"
    by (auto split: sum.splits prod.splits)
  from run_cycle_step[OF c] obtain l where
    l: "test_loss s1 = test_loss self @ [l]" and d: "savedir s1 = savedir self"
    and sv: "saves_best (savedir self) effs
             = (0 < e \<and> (\<exists>m. py_min (test_loss self) = Inr m \<and> py_lt l m))"
    by blast
  from Cons.IH[OF r] obtain ls where
    len: "length tr' = length es" and d': "savedir self' = savedir s1"
    and ls: "length ls = length es" "test_loss self' = test_loss s1 @ ls"
    and ih: "\<forall>i<length es. saves_best (savedir s1) (tr' ! i)
        = (0 < es ! i \<and>
           (\<exists>m. py_min (take (length (test_loss s1) + i) (test_loss self')) = Inr m
                \<and> py_lt (test_loss self' ! (length (test_loss s1) + i)) m))"
    by blast
  have full: "test_loss self' = test_loss self @ (l # ls)" using ls l by simp
  have "saves_best (savedir self) (tr ! i)
        = (0 < (e # es) ! i \<and>
           (\<exists>m. py_min (take (length (test_loss self) + i) (test_loss self')) = Inr m
                \<and> py_lt (test_loss self' ! (length (test_loss self) + i)) m))"
    if i: "i < length (e # es)" for i
  proof (cases i)
    case 0
    then show ?thesis using sv tr full by (simp add: nth_append)
  next
    case (Suc j)
    then have j: "j < length es" using i by simp
    have "length (test_loss s1) + j = length (test_loss self) + i" using l Suc by simp
    with ih j d Suc tr show ?thesis by simp
  qed
  then show ?case using len tr d d' full ls by auto
qed

subsection \<open>The order of floats and the minimum of a list\<close>

lemma py_lt_irrefl: "\<not> py_lt x x"
  by (cases x) auto

lemma py_lt_trans: "py_lt x y \<Longrightarrow> py_lt y z \<Longrightarrow> py_lt x z"
  by (cases x; cases y; cases z) auto

lemma py_lt_total: "x \<noteq> NaN \<Longrightarrow> y \<noteq> NaN \<Longrightarrow> py_lt x y \<or> x = y \<or> py_lt y x"
  by (cases x; cases y) auto

lemma py_lt_not_nan: "py_lt x y \<Longrightarrow> x \<noteq> NaN \<and> y \<noteq> NaN \<and> x \<noteq> PInf"
  by (cases x; cases y) auto

lemma py_lt_nan_right: "\<not> py_lt x NaN"
  by (cases x) auto

lemma py_min_from_nan: "py_min_from NaN xs = NaN"
  by (induction xs) (auto simp: py_lt_nan_right)

lemma py_min_from_least:
  "m \<noteq> NaN \<Longrightarrow>
     py_min_from m xs \<noteq> NaN \<and> py_min_from m xs \<in> set (m # xs) \<and>
     (\<forall>y\<in>set (m # xs). \<not> py_lt y (py_min_from m xs))"
proof (induction xs arbitrary: m)
  case Nil
  then show ?case by (simp add: py_lt_irrefl)
next
  case (Cons x xs)
  let ?m' = "if py_lt x m then x else m"
  let ?r = "py_min_from ?m' xs"
  have m': "?m' \<noteq> NaN" using Cons.prems py_lt_not_nan by auto
  from Cons.IH[OF m'] have r: "?r \<noteq> NaN" and mem: "?r \<in> set (?m' # xs)"
    and low: "\<forall>y\<in>set (?m' # xs). \<not> py_lt y ?r" by blast+
  have lm: "\<not> py_lt ?m' ?r" using low by simp
  have a: "\<not> py_lt m ?r"
  proof (cases "py_lt x m")
    case True
    show ?thesis
    proof
      assume "py_lt m ?r"
      with True have "py_lt x ?r" using py_lt_trans by blast
      with lm True show False by simp
    qed
  next
    case False
    with lm show ?thesis by simp
  qed
  have b: "\<not> py_lt x ?r"
  proof (cases "py_lt x m")
    case True
    with lm show ?thesis by simp
  next
    case False
    show ?thesis
    proof
      assume xr: "py_lt x ?r"
      from py_lt_total[OF r Cons.prems] a have "py_lt ?r m \<or> ?r = m" by blast
      then have "py_lt x m"
      proof
        assume "py_lt ?r m"
        with xr show ?thesis by (rule py_lt_trans)
      next
        assume "?r = m"
        with xr show ?thesis by simp
      qed
      with False show False by simp
    qed
  qed
  have c: "\<forall>y\<in>set xs. \<not> py_lt y ?r" using low by simp
  have d: "?r \<in> set (m # x # xs)" using mem by (auto split: if_splits)
  show ?case using r a b c d by simp
qed

lemma improves_iff:
  "improves hist k = (\<exists>m. py_min (take k hist) = Inr m \<and> py_lt (hist ! k) m)"
  by (auto simp: improves_def split: sum.splits)

lemma take_as_cons: "0 < k \<Longrightarrow> k \<le> length xs \<Longrightarrow> take k xs = xs ! 0 # take (k - 1) (tl xs)"
  by (cases xs; cases k) auto

lemma improves_facts:
  assumes imp: "improves hist k" and k: "k < length hist"
  shows "0 < k" and "hist ! 0 \<noteq> NaN" and "py_lt (hist ! k) (hist ! 0)"
    and "\<forall>j<k. \<not> py_lt (hist ! j) (hist ! k)"
proof -
  from imp obtain m where m: "py_min (take k hist) = Inr m" and lt: "py_lt (hist ! k) m"
    by (auto simp: improves_iff)
  show pos: "0 < k" using m k by (cases k) (auto simp: py_min_def)
  have tk: "take k hist = hist ! 0 # take (k - 1) (tl hist)"
    using pos k by (simp add: take_as_cons)
  have mf: "m = py_min_from (hist ! 0) (take (k - 1) (tl hist))"
    using m tk by (simp add: py_min_def)
  show h0: "hist ! 0 \<noteq> NaN"
  proof
    assume "hist ! 0 = NaN"
    with mf have "m = NaN" by (simp add: py_min_from_nan)
    with lt py_lt_not_nan show False by blast
  qed
  from py_min_from_least[OF h0, of "take (k - 1) (tl hist)"] mf tk
  have mn: "m \<noteq> NaN" and low: "\<forall>y\<in>set (take k hist). \<not> py_lt y m" by auto
  have low': "\<not> py_lt (hist ! j) m" if "j < k" for j
  proof -
    have "hist ! j \<in> set (take k hist)" using that k
      by (metis in_set_conv_nth length_take min.absorb2 less_imp_le nth_take)
    with low show ?thesis by blast
  qed
  show "py_lt (hist ! k) (hist ! 0)"
  proof -
    from low'[OF pos] py_lt_total[OF mn h0] have "py_lt m (hist ! 0) \<or> m = hist ! 0" by blast
    with lt py_lt_trans show ?thesis by blast
  qed
  show "\<forall>j<k. \<not> py_lt (hist ! j) (hist ! k)"
  proof (intro allI impI notI)
    fix j assume "j < k" and "py_lt (hist ! j) (hist ! k)"
    with lt low' py_lt_trans show False by blast
  qed
qed

lemma not_improves_witness:
  assumes k: "k < length hist" "0 < k" and h0: "hist ! 0 \<noteq> NaN"
    and ni: "\<not> improves hist k" and nk: "hist ! k \<noteq> NaN"
  shows "\<exists>j<k. hist ! j = hist ! k \<or> py_lt (hist ! j) (hist ! k)"
proof -
  have tk: "take k hist = hist ! 0 # take (k - 1) (tl hist)"
    using k by (simp add: take_as_cons)
  define m where "m = py_min_from (hist ! 0) (take (k - 1) (tl hist))"
  have pm: "py_min (take k hist) = Inr m" using tk by (simp add: py_min_def m_def)
  from py_min_from_least[OF h0, of "take (k - 1) (tl hist)"] tk
  have mn: "m \<noteq> NaN" and mem: "m \<in> set (take k hist)" by (auto simp: m_def)
  from mem obtain j where j: "j < k" "hist ! j = m" using k
    by (metis in_set_conv_nth length_take min.absorb2 less_imp_le nth_take)
  from ni pm have "\<not> py_lt (hist ! k) m" by (auto simp: improves_iff)
  with py_lt_total[OF mn nk] have "py_lt m (hist ! k) \<or> m = hist ! k" by blast
  with j show ?thesis by auto
qed

lemma last_improvement_is_least:
  assumes s: "s < length hist" "improves hist s"
    and later: "\<forall>e. s < e \<and> e < length hist \<longrightarrow> \<not> improves hist e"
  shows "e < length hist \<Longrightarrow> \<not> py_lt (hist ! e) (hist ! s)"
proof (induction e rule: less_induct)
  case (less e)
  note f = improves_facts[OF s(2) s(1)]
  show ?case
  proof
    assume lt: "py_lt (hist ! e) (hist ! s)"
    consider "e < s" | "e = s" | "s < e" by linarith
    then show False
    proof cases
      case 1
      with f(4) lt show False by blast
    next
      case 2
      with lt py_lt_irrefl show False by simp
    next
      case 3
      then have ni: "\<not> improves hist e" using later less.prems by blast
      have pos: "0 < e" using 3 by simp
      have nn: "hist ! e \<noteq> NaN" using lt py_lt_not_nan by blast
      from not_improves_witness[OF less.prems pos f(2) ni nn]
      obtain j where j: "j < e" "hist ! j = hist ! e \<or> py_lt (hist ! j) (hist ! e)" by blast
      then have "py_lt (hist ! j) (hist ! s)" using lt py_lt_trans by auto
      moreover have "\<not> py_lt (hist ! j) (hist ! s)" using less.IH[OF j(1)] j(1) less.prems by simp
      ultimately show False by simp
    qed
  qed
qed

lemma improvement_exists_iff:
  "(\<exists>s<length hist. improves hist s) = (\<exists>e<length hist. py_lt (hist ! e) (hist ! 0))"
proof
  assume "\<exists>s<length hist. improves hist s"
  then obtain s where "s < length hist" "improves hist s" by blast
  from improves_facts(3)[OF this(2) this(1)] this(1) show "\<exists>e<length hist. py_lt (hist ! e) (hist ! 0)"
    by blast
next
  assume "\<exists>e<length hist. py_lt (hist ! e) (hist ! 0)"
  then have "\<exists>e. e < length hist \<and> py_lt (hist ! e) (hist ! 0)" by blast
  then obtain e where e: "e < length hist" "py_lt (hist ! e) (hist ! 0)"
    and least: "\<forall>j<e. \<not> (j < length hist \<and> py_lt (hist ! j) (hist ! 0))"
    using exists_least_iff[of "\<lambda>e. e < length hist \<and> py_lt (hist ! e) (hist ! 0)"] by blast
  have pos: "0 < e" using e(2) py_lt_irrefl by (cases e) auto
  have h0: "hist ! 0 \<noteq> NaN" and ne: "hist ! e \<noteq> NaN" using e(2) py_lt_not_nan by blast+
  have "improves hist e"
  proof (rule ccontr)
    assume ni: "\<not> improves hist e"
    from not_improves_witness[OF e(1) pos h0 ni ne]
    obtain j where j: "j < e" "hist ! j = hist ! e \<or> py_lt (hist ! j) (hist ! e)" by blast
    then have "py_lt (hist ! j) (hist ! 0)" using e(2) py_lt_trans by auto
    with least j(1) e(1) show False by simp
  qed
  with e(1) show "\<exists>s<length hist. improves hist s" by blast
qed

subsection \<open>What decides whether a cycle raises\<close>

lemma py_min_ok: "(\<exists>m. py_min xs = Inr m) = (xs \<noteq> [])"
  by (cases xs) (auto simp: py_min_def)

lemma print_epoch_ok: "(\<exists>p. print_epoch e s = Inr p) = (e = 0 \<or> print_loss s \<noteq> 0)"
  by (auto simp: print_epoch_def)

lemma save_best_ok: "(\<exists>p. save_best e s = Inr p) = (e = 0 \<or> 2 \<le> length (test_loss s))"
proof (cases "e = 0")
  case True
  then show ?thesis by (simp add: save_best_def)
next
  case False
  show ?thesis
  proof (cases "test_loss s" rule: rev_cases)
    case Nil
    then show ?thesis using False by (simp add: save_best_def)
  next
    case (snoc h l)
    then have "(\<exists>p. save_best e s = Inr p) = (\<exists>m. py_min h = Inr m)"
      using False by (cases "py_min h") (auto simp: save_best_def)
    also have "\<dots> = (h \<noteq> [])" by (rule py_min_ok)
    also have "\<dots> = (2 \<le> length (test_loss s))" using snoc by (cases h) auto
    finally show ?thesis using False by simp
  qed
qed

lemma train_step_frame:
  "train_step B s im lb = (s1, l) \<Longrightarrow>
     frame s1 = frame s \<and> test_loss s1 = test_loss s \<and> savedir s1 = savedir s
     \<and> train_loss s1 = train_loss s"
  by (auto simp: train_step_def frame_def split: prod.splits)

lemma dataloader_frame:
  "batch_size s' = batch_size s \<Longrightarrow> dataloader s' im lb i = dataloader s im lb i"
  by (simp add: dataloader_def split: sum.splits)

lemma run_cycle_unfold:
  assumes bt: "np_getitem (batch_idx_train s) e = Inr bt"
    and b: "dataloader s (images_all s) (labels_all s) bt = Inr (images, labels)"
    and t: "train_step B s images labels = (s1, loss)"
    and bs: "np_getitem (batch_idx_test s) e = Inr bs"
    and b': "dataloader s (images_test_all s) (labels_test_all s) bs = Inr (images', labels')"
  shows "run_cycle B e s =
     (let s3 = s1\<lparr>train_loss := train_loss s @ [loss],
                  test_loss := test_loss s @
                    [test_step B (s1\<lparr>train_loss := train_loss s @ [loss]\<rparr>) images' labels']\<rparr>
      in case print_epoch e s3 of Inl x \<Rightarrow> Inl x | Inr printed \<Rightarrow>
         (case save_best e s3 of Inl x \<Rightarrow> Inl x | Inr saved \<Rightarrow> Inr (s3, printed @ saved)))"
proof -
  note f = train_step_frame[OF t]
  have g: "batch_idx_test s1 = batch_idx_test s" "images_test_all s1 = images_test_all s"
    "labels_test_all s1 = labels_test_all s" "batch_size s1 = batch_size s"
    using f by (simp_all add: frame_def)
  have d: "dataloader (s1\<lparr>train_loss := x\<rparr>) (images_test_all s)
             (labels_test_all s) bs = Inr (images', labels')" for x
    using b' g(4) dataloader_frame[of "s1\<lparr>train_loss := x\<rparr>" s] by simp
  show ?thesis
    unfolding run_cycle_def
    by (simp add: bt b t bs g d f Let_def)
qed

lemma run_cycle_ok: "(\<exists>r. run_cycle B e s = Inr r) = cycle_ok e s"
proof (cases "np_getitem (batch_idx_train s) e")
  case (Inl x)
  then show ?thesis by (simp add: run_cycle_def cycle_ok_def)
next
  case bt: (Inr bt)
  show ?thesis
  proof (cases "dataloader s (images_all s) (labels_all s) bt")
    case (Inl x)
    with bt show ?thesis by (simp add: run_cycle_def cycle_ok_def)
  next
    case (Inr b)
    then obtain images labels where
      b: "dataloader s (images_all s) (labels_all s) bt = Inr (images, labels)"
      by (cases b) auto
    obtain s1 loss where t: "train_step B s images labels = (s1, loss)" by force
    note f = train_step_frame[OF t]
    have g: "batch_idx_test s1 = batch_idx_test s" "batch_size s1 = batch_size s"
      "print_loss s1 = print_loss s"
      using f by (simp_all add: frame_def)
    show ?thesis
    proof (cases "np_getitem (batch_idx_test s) e")
      case (Inl x)
      with bt b t g show ?thesis by (simp add: run_cycle_def cycle_ok_def Let_def)
    next
      case bs: (Inr bs)
      show ?thesis
      proof (cases "dataloader s (images_test_all s) (labels_test_all s) bs")
        case (Inl x)
        then have "dataloader (s1\<lparr>train_loss := y\<rparr>) (images_test_all s)
             (labels_test_all s) bs = Inl x" for y
          using g(2) dataloader_frame[of "s1\<lparr>train_loss := y\<rparr>" s] by simp
        with bt b t g bs Inl f show ?thesis
          by (simp add: run_cycle_def cycle_ok_def Let_def frame_def)
      next
        case (Inr b')
        then obtain images' labels' where
          b': "dataloader s (images_test_all s) (labels_test_all s) bs = Inr (images', labels')"
          by (cases b') auto
        let ?s3 = "s1\<lparr>train_loss := train_loss s @ [loss],
                  test_loss := test_loss s @
                    [test_step B (s1\<lparr>train_loss := train_loss s @ [loss]\<rparr>) images' labels']\<rparr>"
        have p: "(\<exists>p. print_epoch e ?s3 = Inr p) = (e = 0 \<or> print_loss s \<noteq> 0)"
          using g(3) by (simp add: print_epoch_ok)
        have q: "(\<exists>p. save_best e ?s3 = Inr p) = (e = 0 \<or> test_loss s \<noteq> [])"
          by (cases "test_loss s") (simp_all add: save_best_ok)
        have "(\<exists>r. run_cycle B e s = Inr r)
                = ((\<exists>p. print_epoch e ?s3 = Inr p) \<and> (\<exists>p. save_best e ?s3 = Inr p))"
          unfolding run_cycle_unfold[OF bt b t bs b'] Let_def
          by (cases "print_epoch e ?s3"; cases "save_best e ?s3") simp_all
        also have "\<dots> = cycle_ok e s"
          using p q bt b bs b' by (auto simp: cycle_ok_def)
        finally show ?thesis .
      qed
    qed
  qed
qed

lemma run_cycle_frame:
  assumes "run_cycle B e s = Inr (s', effs)"
  shows "frame s' = frame s \<and> length (test_loss s') = Suc (length (test_loss s))
         \<and> length (train_loss s') = Suc (length (train_loss s))"
proof -
  from assms have "\<exists>r. run_cycle B e s = Inr r" by blast
  then have ok: "cycle_ok e s" using run_cycle_ok[of B e s] by blast
  then obtain bt where bt: "np_getitem (batch_idx_train s) e = Inr bt"
    by (cases "np_getitem (batch_idx_train s) e") (simp_all add: cycle_ok_def)
  from ok bt obtain images labels where
    b: "dataloader s (images_all s) (labels_all s) bt = Inr (images, labels)"
    by (cases "dataloader s (images_all s) (labels_all s) bt") (auto simp: cycle_ok_def)
  from ok bt b obtain bs where bs: "np_getitem (batch_idx_test s) e = Inr bs"
    by (cases "np_getitem (batch_idx_test s) e") (simp_all add: cycle_ok_def)
  from ok bt b bs obtain images' labels' where
    b': "dataloader s (images_test_all s) (labels_test_all s) bs = Inr (images', labels')"
    by (cases "dataloader s (images_test_all s) (labels_test_all s) bs") (auto simp: cycle_ok_def)
  obtain s1 loss where t: "train_step B s images labels = (s1, loss)" by force
  note f = train_step_frame[OF t]
  from assms f show ?thesis
    unfolding run_cycle_unfold[OF bt b t bs b'] Let_def
    by (auto simp: frame_def split: sum.splits)
qed

lemma cycle_ok_frame:
  assumes "frame s = frame s'" and "(test_loss s = []) = (test_loss s' = [])"
  shows "cycle_ok e s = cycle_ok e s'"
proof -
  from assms(1) have f: "batch_idx_train s = batch_idx_train s'"
    "batch_idx_test s = batch_idx_test s'" "images_all s = images_all s'"
    "labels_all s = labels_all s'" "images_test_all s = images_test_all s'"
    "labels_test_all s = labels_test_all s'" "batch_size s = batch_size s'"
    "print_loss s = print_loss s'"
    by (simp_all add: frame_def)
  have d: "dataloader s im lb i = dataloader s' im lb i" for im lb i
    using f(7) by (rule dataloader_frame)
  show ?thesis
    unfolding cycle_ok_def f(1-6,8) d assms(2) ..
qed

lemma run_loop_independent:
  "frame s = frame s' \<Longrightarrow> length (test_loss s) = length (test_loss s') \<Longrightarrow>
   run_loop B s es = Inr (s1, tr) \<Longrightarrow>
   \<exists>s1' tr'. run_loop B' s' es = Inr (s1', tr') \<and> frame s1' = frame s1
      \<and> length (test_loss s1') = length (test_loss s1)"
proof (induction es arbitrary: s s' tr)
  case Nil
  then show ?case by auto
next
  case (Cons e es)
  from Cons.prems(3) obtain s2 effs tr2 where
    c: "run_cycle B e s = Inr (s2, effs)" and r: "run_loop B s2 es = Inr (s1, tr2)"
    by (auto split: sum.splits prod.splits)
  from c have "cycle_ok e s" using run_cycle_ok[of B e s] by blast
  moreover have "(test_loss s = []) = (test_loss s' = [])" using Cons.prems(2) by auto
  ultimately have "cycle_ok e s'" using cycle_ok_frame[OF Cons.prems(1)] by simp
  then obtain s2' effs' where c': "run_cycle B' e s' = Inr (s2', effs')"
    using run_cycle_ok[of B' e s'] by auto
  from run_cycle_frame[OF c] run_cycle_frame[OF c'] Cons.prems(1,2)
  have "frame s2 = frame s2'" "length (test_loss s2) = length (test_loss s2')" by simp_all
  from Cons.IH[OF this r] obtain s1' tr' where
    "run_loop B' s2' es = Inr (s1', tr')" "frame s1' = frame s1"
    "length (test_loss s1') = length (test_loss s1)" by blast
  with c' show ?case by simp
qed

lemma run_loop_frame:
  "run_loop B s es = Inr (s1, tr) \<Longrightarrow>
     frame s1 = frame s \<and> length (train_loss s1) = length (train_loss s) + length es"
proof (induction es arbitrary: s tr)
  case Nil
  then show ?case by simp
next
  case (Cons e es)
  from Cons.prems obtain s2 effs tr2 where
    c: "run_cycle B e s = Inr (s2, effs)" and r: "run_loop B s2 es = Inr (s1, tr2)"
    by (auto split: sum.splits prod.splits)
  from run_cycle_frame[OF c] Cons.IH[OF r] show ?case by simp
qed

lemma final_evaluation_independent:
  "frame s = frame s' \<Longrightarrow> final_evaluation B s idxs = Inr ls
     \<Longrightarrow> \<exists>ls'. final_evaluation B' s' idxs = Inr ls'"
proof (induction idxs arbitrary: ls)
  case Nil
  then show ?case by simp
next
  case (Cons i idxs)
  from Cons.prems(1) have f: "images_test_all s = images_test_all s'"
    "labels_test_all s = labels_test_all s'" "batch_size s = batch_size s'"
    by (simp_all add: frame_def)
  have d: "dataloader s im lb j = dataloader s' im lb j" for im lb j
    using f(3) by (rule dataloader_frame)
  from Cons.prems(2) obtain b ls2 where
    a: "dataloader s (images_test_all s) (labels_test_all s) i = Inr b"
    and r: "final_evaluation B s idxs = Inr ls2"
    by (auto split: sum.splits prod.splits)
  from Cons.IH[OF Cons.prems(1) r] obtain ls' where "final_evaluation B' s' idxs = Inr ls'"
    by blast
  with a show ?case by (cases b) (simp add: d[symmetric] f[symmetric])
qed

lemma run_loop_of_run:
  "run B self = Inr r \<Longrightarrow>
     run_loop B self [0..<nat (training_cycles self)] = Inr (final_self r, cycle_effects r)"
  by (auto simp: run_def split: sum.splits prod.splits if_splits)

lemma run_independent:
  assumes "run B self = Inr r"
  shows "\<exists>r'. run B' self = Inr r'"
proof -
  let ?es = "[0..<nat (training_cycles self)]"
  from assms obtain s1 cyc ls where
    l: "run_loop B self ?es = Inr (s1, cyc)"
    and e: "final_evaluation B s1 [0..<len_batches (images_test_all s1)] = Inr ls"
    and n: "len_batches (images_test_all s1) \<noteq> 0"
    by (auto simp: run_def split: sum.splits prod.splits if_splits)
  from run_loop_independent[OF refl refl l, of B'] obtain s1' cyc' where
    l': "run_loop B' self ?es = Inr (s1', cyc')" and f: "frame s1' = frame s1" by blast
  then have t: "images_test_all s1' = images_test_all s1" by (simp add: frame_def)
  from final_evaluation_independent[OF f[symmetric] e, of B'] obtain ls' where
    "final_evaluation B' s1' [0..<len_batches (images_test_all s1)] = Inr ls'" by blast
  with l' n t show ?thesis by (simp add: run_def)
qed

lemma run_trace:
  assumes "run B self = Inr r"
  shows "length (test_loss (final_self r))
           = length (test_loss self) + nat (training_cycles self)"
    and "length (train_loss (final_self r))
           = length (train_loss self) + nat (training_cycles self)"
    and "e < nat (training_cycles self) \<Longrightarrow>
         saves_best (savedir self) (cycle_effects r ! e)
           = (0 < e \<and> improves (test_loss (final_self r)) (length (test_loss self) + e))"
proof -
  note l = run_loop_of_run[OF assms]
  from run_loop_trace[OF l] obtain ls where
    ls: "length ls = nat (training_cycles self)"
      "test_loss (final_self r) = test_loss self @ ls"
    and tr: "\<forall>i<length [0..<nat (training_cycles self)].
        saves_best (savedir self) (cycle_effects r ! i)
        = (0 < [0..<nat (training_cycles self)] ! i \<and>
           (\<exists>m. py_min (take (length (test_loss self) + i) (test_loss (final_self r))) = Inr m
                \<and> py_lt (test_loss (final_self r) ! (length (test_loss self) + i)) m))"
    by auto
  show "length (test_loss (final_self r))
           = length (test_loss self) + nat (training_cycles self)"
    using ls by simp
  show "length (train_loss (final_self r))
           = length (train_loss self) + nat (training_cycles self)"
    using run_loop_frame[OF l] by simp
  show "saves_best (savedir self) (cycle_effects r ! e)
           = (0 < e \<and> improves (test_loss (final_self r)) (length (test_loss self) + e))"
    if "e < nat (training_cycles self)"
    using tr that by (simp add: improves_iff)
qed

subsection \<open>Three concrete runs\<close>

lemma upt3: "[0..<3] = [0, 1, 2]"
  by (simp add: upt_rec)

lemmas run_unfold = run_def scripted_backend_def scripted_trainer_def scripted_result_def
  upt3 run_cycle_def np_getitem_def dataloader_def slice_to_def train_step_def test_step_def
  print_epoch_def save_best_def py_min_def os_path_join_def Let_def

lemma run_improving:
  "run (scripted_backend [Fin 3, Fin 1, Fin 2]) scripted_trainer
     = Inr (scripted_result [Fin 3, Fin 1, Fin 2]
              [[PrintEpoch 1 (Fin 1) (Fin 3)],
               [TorchSave ''./model_test_weights_best.pt'' 2], []])"
  by (simp add: run_unfold)

lemma run_increasing:
  "run (scripted_backend [Fin 1, Fin 2, Fin 3]) scripted_trainer
     = Inr (scripted_result [Fin 1, Fin 2, Fin 3] [[PrintEpoch 1 (Fin 1) (Fin 1)], [], []])"
  by (simp add: run_unfold)

lemma run_nonfinite:
  "run (scripted_backend [Fin 1, NaN, NInf]) scripted_trainer
     = Inr (scripted_result [Fin 1, NaN, NInf]
              [[PrintEpoch 1 (Fin 1) (Fin 1)], [],
               [TorchSave ''./model_test_weights_best.pt'' 3]])"
  by (simp add: run_unfold)

subsection \<open>The claims on the training loop\<close>

text \<open>
  C3. In a run that returns, for every cycle \<open>e\<close> below \<^verbatim>\<open>training_cycles\<close>: the cycle
  writes the "best" checkpoint if and only if \<open>e > 0\<close> and the test loss it recorded
  (the entry of the history at the position of the cycle) is strictly less, by Python's
  comparison, than Python's minimum of all test losses recorded before it.
\<close>

theorem best_checkpoint_iff:
  assumes "run B self = Inr r" and "e < nat (training_cycles self)"
  shows "length (test_loss (final_self r))
           = length (test_loss self) + nat (training_cycles self) \<and>
         saves_best (savedir self) (cycle_effects r ! e)
           = (0 < e \<and> improves (test_loss (final_self r)) (length (test_loss self) + e))"
  using run_trace(1)[OF assms(1)] run_trace(3)[OF assms] by simp

theorem best_checkpoint_iff_witness:
  "saves_best ''./'' [TorchSave ''./model_test_weights_best.pt'' (2::nat)] \<and>
   improves [Fin 3, Fin 1, Fin 2] 1 \<and>
   \<not> saves_best ''./'' ([] :: nat effect list) \<and>
   \<not> improves [Fin 3, Fin 1, Fin 2] 2"
  using best_checkpoint_iff[OF run_improving, of 1] best_checkpoint_iff[OF run_improving, of 2]
  by (simp add: scripted_trainer_def scripted_result_def saves_best_def improves_def py_min_def
      os_path_join_def)

lemma saves_iff_improves:
  assumes r: "run B self = Inr r" and e: "test_loss self = []"
    and k: "k < length (test_loss (final_self r))"
  shows "saves_best (savedir self) (cycle_effects r ! k) = improves (test_loss (final_self r)) k"
proof -
  have len: "length (test_loss (final_self r)) = nat (training_cycles self)"
    using run_trace(1)[OF r] e by simp
  have "saves_best (savedir self) (cycle_effects r ! k)
          = (0 < k \<and> improves (test_loss (final_self r)) k)"
    using run_trace(3)[OF r, of k] k len e by simp
  moreover have "improves (test_loss (final_self r)) k \<Longrightarrow> 0 < k"
    using improves_facts(1)[OF _ k] by blast
  ultimately show ?thesis by blast
qed

text \<open>
  C7 (as amended). After a run that started with an empty test-loss history: a "best"
  checkpoint has been written if and only if some cycle recorded a test loss strictly
  below that of cycle 0 (so none is written when the minimum occurs at cycle 0); and when
  \<open>s\<close> is the last cycle that wrote it, no cycle of the run, earlier or later, recorded a
  test loss strictly below that of \<open>s\<close>; when no recorded loss is NaN, the loss of \<open>s\<close> is
  less than or equal to every recorded loss, that is, the minimum over the whole history.
\<close>

theorem best_checkpoint_minimum:
  assumes r: "run B self = Inr r" and e: "test_loss self = []"
  shows "length (test_loss (final_self r)) = nat (training_cycles self) \<and>
    ((\<exists>s<nat (training_cycles self). saves_best (savedir self) (cycle_effects r ! s))
       = (\<exists>k<nat (training_cycles self).
            py_lt (test_loss (final_self r) ! k) (test_loss (final_self r) ! 0))) \<and>
    (\<forall>s<nat (training_cycles self).
        saves_best (savedir self) (cycle_effects r ! s) \<longrightarrow>
        (\<forall>k. s < k \<and> k < nat (training_cycles self)
              \<longrightarrow> \<not> saves_best (savedir self) (cycle_effects r ! k)) \<longrightarrow>
        (\<forall>k<nat (training_cycles self).
            \<not> py_lt (test_loss (final_self r) ! k) (test_loss (final_self r) ! s)) \<and>
        ((\<forall>k<nat (training_cycles self). test_loss (final_self r) ! k \<noteq> NaN) \<longrightarrow>
         (\<forall>k<nat (training_cycles self).
            test_loss (final_self r) ! s = test_loss (final_self r) ! k
            \<or> py_lt (test_loss (final_self r) ! s) (test_loss (final_self r) ! k))))"
proof -
  let ?h = "test_loss (final_self r)"
  let ?T = "nat (training_cycles self)"
  let ?S = "\<lambda>k. saves_best (savedir self) (cycle_effects r ! k)"
  have len: "length ?h = ?T" using run_trace(1)[OF r] e by simp
  have si: "?S k = improves ?h k" if "k < ?T" for k
    using saves_iff_improves[OF r e, of k] that len by simp
  have a: "(\<exists>s<?T. ?S s) = (\<exists>k<?T. py_lt (?h ! k) (?h ! 0))"
    using improvement_exists_iff[of ?h] si len by auto
  have b: "(\<forall>k<?T. \<not> py_lt (?h ! k) (?h ! s)) \<and>
        ((\<forall>k<?T. ?h ! k \<noteq> NaN) \<longrightarrow> (\<forall>k<?T. ?h ! s = ?h ! k \<or> py_lt (?h ! s) (?h ! k)))"
    if s: "s < ?T" and sv: "?S s" and later: "\<forall>k. s < k \<and> k < ?T \<longrightarrow> \<not> ?S k" for s
  proof -
    have s': "s < length ?h" using s len by simp
    have im: "improves ?h s" using sv si[OF s] by simp
    have lt: "\<forall>k. s < k \<and> k < length ?h \<longrightarrow> \<not> improves ?h k"
      using later si len by auto
    have low: "\<not> py_lt (?h ! k) (?h ! s)" if "k < ?T" for k
      using last_improvement_is_least[OF s' im lt, of k] that len by simp
    have "?h ! s = ?h ! k \<or> py_lt (?h ! s) (?h ! k)"
      if nn: "\<forall>k<?T. ?h ! k \<noteq> NaN" and k: "k < ?T" for k
      using py_lt_total[of "?h ! s" "?h ! k"] nn k s low[OF k] by blast
    with low show ?thesis by blast
  qed
  from len a b show ?thesis by blast
qed

theorem best_checkpoint_minimum_witness:
  "saves_best ''./'' [TorchSave ''./model_test_weights_best.pt'' (2::nat)] \<and>
   py_lt (Fin 1) (Fin 3) \<and> \<not> py_lt (Fin 3) (Fin 1) \<and> \<not> py_lt (Fin 2) (Fin 1)"
  using best_checkpoint_minimum[OF run_improving]
  by (simp add: scripted_trainer_def scripted_result_def saves_best_def os_path_join_def)

theorem no_best_checkpoint_counterexample:
  "run (scripted_backend [Fin 1, Fin 2, Fin 3]) scripted_trainer
     = Inr (scripted_result [Fin 1, Fin 2, Fin 3] [[PrintEpoch 1 (Fin 1) (Fin 1)], [], []]) \<and>
   \<not> saves_best ''./'' [PrintEpoch 1 (Fin 1) (Fin 1) :: nat effect] \<and>
   \<not> saves_best ''./'' ([] :: nat effect list)"
  using run_increasing by (simp add: saves_best_def)

text \<open>
  C9 (as amended). The loop has no check of the losses. Whether a run returns does not
  depend on the losses: if it returns with one backend it returns with every backend,
  whatever losses, finite or not, that one produces; a returning run has recorded one
  training and one test loss per cycle; and a cycle that writes the "best" checkpoint
  recorded a test loss that is neither NaN nor plus infinity (minus infinity is possible).
\<close>

theorem nonfinite_loss_not_detected:
  assumes r: "run B self = Inr r"
  shows "(\<forall>B'. \<exists>r'. run B' self = Inr r') \<and>
    length (train_loss (final_self r))
      = length (train_loss self) + nat (training_cycles self) \<and>
    length (test_loss (final_self r))
      = length (test_loss self) + nat (training_cycles self) \<and>
    (\<forall>k<nat (training_cycles self).
        saves_best (savedir self) (cycle_effects r ! k) \<longrightarrow>
        test_loss (final_self r) ! (length (test_loss self) + k) \<noteq> NaN \<and>
        test_loss (final_self r) ! (length (test_loss self) + k) \<noteq> PInf)"
proof -
  have a: "\<forall>B'. \<exists>r'. run B' self = Inr r'" using run_independent[OF r] by blast
  have b: "test_loss (final_self r) ! (length (test_loss self) + k) \<noteq> NaN \<and>
        test_loss (final_self r) ! (length (test_loss self) + k) \<noteq> PInf"
    if k: "k < nat (training_cycles self)"
      and sv: "saves_best (savedir self) (cycle_effects r ! k)" for k
  proof -
    from run_trace(3)[OF r k] sv
    have "improves (test_loss (final_self r)) (length (test_loss self) + k)" by simp
    then obtain m where "py_lt (test_loss (final_self r) ! (length (test_loss self) + k)) m"
      by (auto simp: improves_iff)
    with py_lt_not_nan show ?thesis by blast
  qed
  from a b run_trace(1,2)[OF r] show ?thesis by blast
qed

theorem nonfinite_loss_not_detected_witness:
  "(\<exists>r'. run (scripted_backend [Fin 1, Fin 2, Fin 3]) scripted_trainer = Inr r') \<and>
   length [Fin 1, NaN, NInf] = 0 + nat 3 \<and> NInf \<noteq> NaN \<and> NInf \<noteq> PInf"
  using nonfinite_loss_not_detected[OF run_nonfinite]
  by (simp add: scripted_trainer_def scripted_result_def)

theorem nonfinite_loss_counterexample:
  "run (scripted_backend [Fin 1, NaN, NInf]) scripted_trainer
     = Inr (scripted_result [Fin 1, NaN, NInf]
              [[PrintEpoch 1 (Fin 1) (Fin 1)], [],
               [TorchSave ''./model_test_weights_best.pt'' 3]]) \<and>
   \<not> isfinite NaN \<and> \<not> isfinite NInf \<and>
   saves_best ''./'' [TorchSave ''./model_test_weights_best.pt'' (3::nat)]"
  using run_nonfinite by (simp add: isfinite_def saves_best_def os_path_join_def)

end
